theory Spec2Isabelle
  imports Complex_Main "HOL-Library.Stream"
begin

section \<open>Configuration and constants of Mine4Orpheus.py\<close>

text \<open>
  The underground engine of \<^verbatim>\<open>Mine4Orpheus.py\<close>: terrain generation, the mining branch of
  the main loop, the particle pool and the camera follower.

  Conventions of the embedding.
  \<^item> Python \<^verbatim>\<open>int\<close> is \<open>int\<close>; Python \<^verbatim>\<open>float\<close> is idealised as \<open>real\<close>, so a decimal
    literal such as \<^verbatim>\<open>0.05\<close> stands for the exact rational and no rounding is modelled.
  \<^item> The global generator of module \<^verbatim>\<open>random\<close> is a stream of draws of \<^verbatim>\<open>random()\<close>,
    threaded through every function that draws; each draw is meant to lie in \<open>[0, 1)\<close>.
  \<^item> A dictionary is a map; \<^verbatim>\<open>d[k]\<close> on a missing key is the value \<open>Inl KeyError\<close>.
  \<^item> Drawing and sound have no effect on the state modelled here and are left out.
\<close>

datatype error = KeyError | ValueError | IndexError

definition WIDTH :: int where "WIDTH = 640"
definition HEIGHT :: int where "HEIGHT = 480"
definition TILE_SIZE :: int where "TILE_SIZE = 32"
definition COLS :: int where "COLS = WIDTH div TILE_SIZE"
definition ROWS :: int where "ROWS = HEIGHT div TILE_SIZE"

datatype tile = EMPTY | DIRT | ROCK | BRONZE | SILVER | GOLD | DIAMOND

type_synonym rgb = "int \<times> int \<times> int"

text \<open>\<^verbatim>\<open>TILE_COLORS\<close> has an entry for each of the seven tile ids, so indexing it never fails.\<close>

fun TILE_COLORS :: "tile \<Rightarrow> rgb" where
  "TILE_COLORS EMPTY = (20, 15, 10)"
| "TILE_COLORS DIRT = (139, 69, 19)"
| "TILE_COLORS ROCK = (80, 80, 80)"
| "TILE_COLORS BRONZE = (205, 127, 50)"
| "TILE_COLORS SILVER = (192, 192, 192)"
| "TILE_COLORS GOLD = (255, 215, 0)"
| "TILE_COLORS DIAMOND = (180, 250, 255)"

definition DURABILITY :: "tile \<rightharpoonup> int" where
  "DURABILITY = [DIRT \<mapsto> 1, ROCK \<mapsto> 9999, BRONZE \<mapsto> 3, SILVER \<mapsto> 5, GOLD \<mapsto> 8, DIAMOND \<mapsto> 12]"

record ore_cfg =
  base :: real
  scale :: real

definition ORE_CONFIG :: "string \<rightharpoonup> ore_cfg" where
  "ORE_CONFIG = [''ROCK'' \<mapsto> \<lparr>base = 10, scale = 5 / 100\<rparr>,
                 ''BRONZE'' \<mapsto> \<lparr>base = 15, scale = - (1 / 10)\<rparr>,
                 ''SILVER'' \<mapsto> \<lparr>base = 8, scale = - (5 / 100)\<rparr>,
                 ''GOLD'' \<mapsto> \<lparr>base = 3, scale = 15 / 100\<rparr>,
                 ''DIAMOND'' \<mapsto> \<lparr>base = 1, scale = 1 / 10\<rparr>]"

text \<open>\<^verbatim>\<open>d[k]\<close> and \<^verbatim>\<open>d.get(k, default)\<close>.\<close>

definition getitem :: "('k \<rightharpoonup> 'v) \<Rightarrow> 'k \<Rightarrow> error + 'v" where
  "getitem d k = (case d k of None \<Rightarrow> Inl KeyError | Some v \<Rightarrow> Inr v)"

definition dict_get :: "('k \<rightharpoonup> 'v) \<Rightarrow> 'k \<Rightarrow> 'v \<Rightarrow> 'v" where
  "dict_get d k dflt = (case d k of None \<Rightarrow> dflt | Some v \<Rightarrow> v)"

section \<open>Session data and the mole\<close>

record GameSession =
  inventory :: "tile \<rightharpoonup> int"
  money :: int
  shovel_level :: int
  has_torch :: bool

definition GameSession_init :: GameSession where
  "GameSession_init =
     \<lparr>inventory = [BRONZE \<mapsto> 0, SILVER \<mapsto> 0, GOLD \<mapsto> 0, DIAMOND \<mapsto> 0],
      money = 0, shovel_level = 1, has_torch = False\<rparr>"

datatype mole_state = IDLE | MINING | CRAWLING

record GridMole =
  grid_x :: int
  grid_y :: int
  can_move_timer :: int
  state :: mole_state
  facing_right :: bool
  frame :: int
  anim_timer :: int

definition GridMole_init :: "int \<Rightarrow> int \<Rightarrow> GridMole" where
  "GridMole_init start_x start_y =
     \<lparr>grid_x = start_x, grid_y = start_y, can_move_timer = 0, state = IDLE,
      facing_right = True, frame = 0, anim_timer = 0\<rparr>"

text \<open>The number of sprites \<^verbatim>\<open>_generate_sprites\<close> puts in each animation.\<close>

fun anims_len :: "mole_state \<Rightarrow> int" where
  "anims_len IDLE = 1"
| "anims_len MINING = 2"
| "anims_len CRAWLING = 2"

definition process_animation :: "int \<Rightarrow> GridMole \<Rightarrow> GridMole" where
  "process_animation dt m =
     (let m1 = m\<lparr>anim_timer := anim_timer m + dt\<rparr>;
          frame_duration = (if state m1 = IDLE then 300 else 80)
      in if anim_timer m1 > frame_duration
         then m1\<lparr>frame := (frame m1 + 1) mod anims_len (state m1), anim_timer := 0\<rparr>
         else m1)"

text \<open>The cooldown set by a hit that does not destroy the tile (line 452).\<close>

definition dig_cooldown :: "int \<Rightarrow> int" where
  "dig_cooldown level = max 50 (250 - (level * 20))"

section \<open>The random generator\<close>

text \<open>
  \<^verbatim>\<open>random.uniform(a, b)\<close> is \<^verbatim>\<open>a + (b - a) * random()\<close>: it takes one draw.
\<close>

definition uniform :: "real \<Rightarrow> real \<Rightarrow> real stream \<Rightarrow> real \<times> real stream" where
  "uniform a b rng = (a + (b - a) * shd rng, stl rng)"

text \<open>
  \<^verbatim>\<open>random.choices(population, weights, k=1)[0]\<close>, as the standard library computes it: the
  running sums of the weights, one draw scaled by their total, and a binary search
  (\<^verbatim>\<open>bisect\<close>) among the first \<open>n - 1\<close> sums.
\<close>

fun accumulate :: "real \<Rightarrow> real list \<Rightarrow> real list" where
  "accumulate s [] = []"
| "accumulate s (w # ws) = (s + w) # accumulate (s + w) ws"

function bisect :: "real list \<Rightarrow> real \<Rightarrow> nat \<Rightarrow> nat \<Rightarrow> nat" where
  "bisect a v lo hi =
     (if lo < hi
      then (if v < a ! ((lo + hi) div 2)
            then bisect a v lo ((lo + hi) div 2)
            else bisect a v ((lo + hi) div 2 + 1) hi)
      else lo)"
  by pat_completeness auto
termination
  by (relation "measure (\<lambda>(a, v, lo, hi). hi - lo)") auto

declare bisect.simps [simp del]

definition random_choices :: "'a list \<Rightarrow> real list \<Rightarrow> real stream \<Rightarrow> error + ('a \<times> real stream)" where
  "random_choices population weights rng =
     (let n = length population;
          cum_weights = accumulate 0 weights
      in if length cum_weights \<noteq> n then Inl ValueError
         else if n = 0 then Inl IndexError
         else let total = last cum_weights
              in if total \<le> 0 then Inl ValueError
                 else Inr (population ! bisect cum_weights (shd rng * total) 0 (n - 1), stl rng))"

section \<open>Particles\<close>

text \<open>The fields \<^verbatim>\<open>x\<close> and \<^verbatim>\<open>y\<close> of a particle are named \<open>pos_x\<close> and \<open>pos_y\<close> here.\<close>

record Particle =
  active :: bool
  pos_x :: real
  pos_y :: real
  vx :: real
  vy :: real
  color :: rgb
  life :: int

definition Particle_init :: Particle where
  "Particle_init =
     \<lparr>active = False, pos_x = 0, pos_y = 0, vx = 0, vy = 0, color = (255, 255, 255), life = 0\<rparr>"

definition ParticlePool_init :: "nat \<Rightarrow> Particle list" where
  "ParticlePool_init pool_size = replicate pool_size Particle_init"

text \<open>
  The loop of \<^verbatim>\<open>ParticlePool.emit\<close> over the rest of the pool, with the counter
  \<^verbatim>\<open>emitted\<close>. The test \<^verbatim>\<open>emitted >= count\<close> comes after a slot has been claimed.
\<close>

fun emit_loop ::
  "real \<Rightarrow> real \<Rightarrow> rgb \<Rightarrow> int \<Rightarrow> int \<Rightarrow> real stream \<Rightarrow> Particle list
     \<Rightarrow> Particle list \<times> real stream" where
  "emit_loop x y c count emitted rng [] = ([], rng)"
| "emit_loop x y c count emitted rng (p # ps) =
     (if \<not> active p
      then (case uniform (- 3) 3 rng of (vx', rng1) \<Rightarrow>
           (case uniform (- 5) (- 1) rng1 of (vy', rng2) \<Rightarrow>
             (let p' = p\<lparr>active := True, pos_x := x, pos_y := y, vx := vx', vy := vy',
                          color := c, life := 255\<rparr>
              in if emitted + 1 \<ge> count then (p' # ps, rng2)
                 else (case emit_loop x y c count (emitted + 1) rng2 ps of
                         (ps', rng3) \<Rightarrow> (p' # ps', rng3)))))
      else (case emit_loop x y c count emitted rng ps of (ps', rng') \<Rightarrow> (p # ps', rng')))"

definition emit ::
  "real \<Rightarrow> real \<Rightarrow> rgb \<Rightarrow> int \<Rightarrow> real stream \<Rightarrow> Particle list \<Rightarrow> Particle list \<times> real stream" where
  "emit x y c count rng pool = emit_loop x y c count 0 rng pool"

text \<open>What \<^verbatim>\<open>update_and_draw\<close> does to one particle, and to the pool.\<close>

definition update_particle :: "Particle \<Rightarrow> Particle" where
  "update_particle p =
     (if active p
      then (let p1 = p\<lparr>vy := vy p + 3 / 10\<rparr>;
                p2 = p1\<lparr>pos_x := pos_x p1 + vx p1\<rparr>;
                p3 = p2\<lparr>pos_y := pos_y p2 + vy p2\<rparr>;
                p4 = p3\<lparr>life := life p3 - 8\<rparr>
            in if life p4 \<le> 0 then p4\<lparr>active := False\<rparr> else p4)
      else p)"

definition update_and_draw :: "Particle list \<Rightarrow> Particle list" where
  "update_and_draw pool = map update_particle pool"

text \<open>The number of active particles and of free slots of a pool.\<close>

definition active_count :: "Particle list \<Rightarrow> nat" where
  "active_count pool = length (filter active pool)"

definition free_count :: "Particle list \<Rightarrow> nat" where
  "free_count pool = length (filter (\<lambda>p. \<not> active p) pool)"

section \<open>Terrain\<close>

type_synonym cell = "tile \<times> int"
type_synonym grid_map = "int \<times> int \<rightharpoonup> cell"

record Terrain =
  grid :: grid_map
  highest_y_generated :: int

definition Terrain_init :: Terrain where
  "Terrain_init = \<lparr>grid = Map.empty, highest_y_generated = - 1\<rparr>"

definition choices :: "tile list" where
  "choices = [DIRT, ROCK, BRONZE, SILVER, GOLD, DIAMOND]"

text \<open>\<^verbatim>\<open>ORE_CONFIG[name]['base'] + scaled_depth * ORE_CONFIG[name]['scale']\<close>.\<close>

definition scaled_weight :: "string \<Rightarrow> int \<Rightarrow> error + real" where
  "scaled_weight name scaled_depth =
     (case getitem ORE_CONFIG name of
        Inl e \<Rightarrow> Inl e
      | Inr c \<Rightarrow> Inr (base c + real_of_int scaled_depth * scale c))"

text \<open>The list \<^verbatim>\<open>weights\<close> that \<^verbatim>\<open>generate_row\<close> hands to \<^verbatim>\<open>random.choices\<close> (lines 206 to 214).\<close>

definition row_weights :: "int \<Rightarrow> error + real list" where
  "row_weights y_depth =
     (let weights = [71, 10, 8, 4, 1, 1];
          scaled_depth = max 0 (y_depth - 20)
      in if scaled_depth > 0
         then (case scaled_weight ''ROCK'' scaled_depth of Inl e \<Rightarrow> Inl e | Inr rock \<Rightarrow>
              (case scaled_weight ''BRONZE'' scaled_depth of Inl e \<Rightarrow> Inl e | Inr bronze \<Rightarrow>
              (case scaled_weight ''SILVER'' scaled_depth of Inl e \<Rightarrow> Inl e | Inr silver \<Rightarrow>
              (case scaled_weight ''GOLD'' scaled_depth of Inl e \<Rightarrow> Inl e | Inr gold \<Rightarrow>
              (case scaled_weight ''DIAMOND'' scaled_depth of Inl e \<Rightarrow> Inl e | Inr diamond \<Rightarrow>
                 (let w = weights[1 := max 5 rock, 2 := max 1 bronze, 3 := max 1 silver,
                                  4 := gold, 5 := diamond]
                  in Inr (list_update w 0 (max 10 (100 - sum_list (drop 1 w))))))))))
         else Inr weights)"

text \<open>The two loops \<^verbatim>\<open>for x in range(COLS)\<close> of \<^verbatim>\<open>generate_row\<close>.\<close>

fun dirt_row :: "int list \<Rightarrow> int \<Rightarrow> grid_map \<Rightarrow> error + grid_map" where
  "dirt_row [] y_depth g = Inr g"
| "dirt_row (x # xs) y_depth g =
     (case getitem DURABILITY DIRT of
        Inl e \<Rightarrow> Inl e
      | Inr d \<Rightarrow> dirt_row xs y_depth (g((x, y_depth) \<mapsto> (DIRT, d))))"

fun random_row ::
  "int list \<Rightarrow> int \<Rightarrow> real list \<Rightarrow> real stream \<Rightarrow> grid_map \<Rightarrow> error + (grid_map \<times> real stream)" where
  "random_row [] y_depth weights rng g = Inr (g, rng)"
| "random_row (x # xs) y_depth weights rng g =
     (case random_choices choices weights rng of
        Inl e \<Rightarrow> Inl e
      | Inr (tile_id, rng') \<Rightarrow>
          random_row xs y_depth weights rng' (g((x, y_depth) \<mapsto> (tile_id, dict_get DURABILITY tile_id 1))))"

definition generate_row :: "int \<Rightarrow> Terrain \<Rightarrow> real stream \<Rightarrow> error + (Terrain \<times> real stream)" where
  "generate_row y_depth t rng =
     (if (0, y_depth) \<in> dom (grid t) then Inr (t, rng)
      else if y_depth < 10
      then (case dirt_row [0 .. COLS - 1] y_depth (grid t) of
              Inl e \<Rightarrow> Inl e
            | Inr g \<Rightarrow> Inr (t\<lparr>grid := g\<rparr>, rng))
      else (case row_weights y_depth of
              Inl e \<Rightarrow> Inl e
            | Inr weights \<Rightarrow>
               (case random_row [0 .. COLS - 1] y_depth weights rng (grid t) of
                  Inl e \<Rightarrow> Inl e
                | Inr (g, rng') \<Rightarrow> Inr (t\<lparr>grid := g\<rparr>, rng'))))"

fun generate_rows :: "int list \<Rightarrow> Terrain \<Rightarrow> real stream \<Rightarrow> error + (Terrain \<times> real stream)" where
  "generate_rows [] t rng = Inr (t, rng)"
| "generate_rows (y # ys) t rng =
     (case generate_row y t rng of
        Inl e \<Rightarrow> Inl e
      | Inr (t', rng') \<Rightarrow> generate_rows ys t' rng')"

definition ensure_generated :: "int \<Rightarrow> Terrain \<Rightarrow> real stream \<Rightarrow> error + (Terrain \<times> real stream)" where
  "ensure_generated target_y t rng =
     (if target_y > highest_y_generated t
      then (case generate_rows [highest_y_generated t + 1 .. target_y] t rng of
              Inl e \<Rightarrow> Inl e
            | Inr (t', rng') \<Rightarrow> Inr (t'\<lparr>highest_y_generated := target_y\<rparr>, rng'))
      else Inr (t, rng))"

section \<open>The underground branch of the main loop\<close>

text \<open>The snapshot of \<^verbatim>\<open>pygame.key.get_pressed()\<close>, for the eight keys the loop reads.\<close>

record keys =
  K_LEFT :: bool
  K_a :: bool
  K_RIGHT :: bool
  K_d :: bool
  K_DOWN :: bool
  K_s :: bool
  K_UP :: bool
  K_w :: bool

text \<open>
  The local variables of \<^verbatim>\<open>main\<close> that the underground pipeline reads and writes, and the
  state of the random generator.
\<close>

record mine_state =
  terrain :: Terrain
  ug_mole :: GridMole
  session :: GameSession
  particle_pool :: "Particle list"
  camera_y :: real
  rng :: "real stream"

text \<open>
  Lines 433 to 457: the body of \<^verbatim>\<open>if dx != 0 or dy != 0\<close>. The list \<^verbatim>\<open>tile_data\<close> is the
  cell itself when the key is in the grid, and a fresh \<^verbatim>\<open>[DIRT, 1]\<close> otherwise; in the
  second case \<^verbatim>\<open>terrain.grid[(tx, ty)][1] -= 1\<close> raises \<^verbatim>\<open>KeyError\<close>.
\<close>

text \<open>Line 444: \<^verbatim>\<open>if tile in session.inventory: session.inventory[tile] += 1\<close>.\<close>

definition credit_ore :: "tile \<Rightarrow> (tile \<rightharpoonup> int) \<Rightarrow> (tile \<rightharpoonup> int)" where
  "credit_ore tile_id items =
     (case items tile_id of None \<Rightarrow> items | Some n \<Rightarrow> items(tile_id \<mapsto> n + 1))"

definition move_into :: "int \<Rightarrow> int \<Rightarrow> int \<Rightarrow> int \<Rightarrow> GridMole \<Rightarrow> GridMole" where
  "move_into tx ty dx dy m =
     m\<lparr>grid_x := tx, grid_y := ty, can_move_timer := 150,
       state := (if dy < 0 \<or> dx \<noteq> 0 then CRAWLING else IDLE)\<rparr>"

definition attempt_move :: "int \<Rightarrow> int \<Rightarrow> mine_state \<Rightarrow> error + mine_state" where
  "attempt_move dx dy w =
     (let m = ug_mole w;
          tx = grid_x m + dx;
          ty = grid_y m + dy
      in if 0 \<le> tx \<and> tx < COLS \<and> ty \<ge> 0
         then (let tile_data = dict_get (grid (terrain w)) (tx, ty) (DIRT, 1)
               in if fst tile_data = EMPTY
                  then Inr (w\<lparr>ug_mole := move_into tx ty dx dy m\<rparr>)
                  else if fst tile_data \<noteq> ROCK
                  then (case getitem (grid (terrain w)) (tx, ty) of
                          Inl e \<Rightarrow> Inl e
                        | Inr (tile_id, hp) \<Rightarrow>
                            if hp - 1 \<le> 0
                            then (let items' = credit_ore tile_id (inventory (session w))
                                  in case emit (real_of_int (tx * TILE_SIZE + 16))
                                               (real_of_int (ty * TILE_SIZE + 16))
                                               (TILE_COLORS tile_id) 8 (rng w) (particle_pool w) of
                                       (pool', rng') \<Rightarrow>
                                         Inr (w\<lparr>terrain := (terrain w)\<lparr>grid :=
                                                   (grid (terrain w))((tx, ty) \<mapsto> (EMPTY, hp - 1))\<rparr>,
                                                ug_mole := move_into tx ty dx dy m,
                                                session := (session w)\<lparr>inventory := items'\<rparr>,
                                                particle_pool := pool', rng := rng'\<rparr>))
                            else Inr (w\<lparr>terrain := (terrain w)\<lparr>grid :=
                                           (grid (terrain w))((tx, ty) \<mapsto> (tile_id, hp - 1))\<rparr>,
                                        ug_mole := m\<lparr>can_move_timer :=
                                                       dig_cooldown (shovel_level (session w)),
                                                     state := MINING\<rparr>\<rparr>))
                  else Inr (w\<lparr>ug_mole := m\<lparr>state := IDLE\<rparr>\<rparr>))
         else Inr (w\<lparr>ug_mole := m\<lparr>state := IDLE\<rparr>\<rparr>))"

text \<open>Lines 421 to 430: the direction read from the keys, once the timer has run out.\<close>

definition read_direction :: "keys \<Rightarrow> GridMole \<Rightarrow> int \<times> int \<times> GridMole" where
  "read_direction ks m =
     (if can_move_timer m \<le> 0
      then (if K_LEFT ks \<or> K_a ks then (- 1, 0, m\<lparr>facing_right := False\<rparr>)
            else if K_RIGHT ks \<or> K_d ks then (1, 0, m\<lparr>facing_right := True\<rparr>)
            else if K_DOWN ks \<or> K_s ks then (0, 1, m)
            else if K_UP ks \<or> K_w ks then (0, - 1, m)
            else (0, 0, m))
      else (0, 0, m))"

text \<open>Line 462, with \<^verbatim>\<open>0.1\<close> read as one tenth.\<close>

definition camera_target :: "int \<Rightarrow> real" where
  "camera_target mole_y = max 0 (real_of_int (mole_y * TILE_SIZE - HEIGHT div 3))"

definition camera_follow :: "int \<Rightarrow> real \<Rightarrow> real" where
  "camera_follow mole_y cam = cam + (camera_target mole_y - cam) * (1 / 10)"

text \<open>
  Lines 420 to 463: one frame of the underground pipeline, for the time step \<open>dt\<close>. First
  the timer, the keys and the move or mining attempt (lines 420 to 459), then the
  animation, the camera and the generation ahead of the camera (lines 461 to 463).
\<close>

definition underground_input :: "int \<Rightarrow> keys \<Rightarrow> mine_state \<Rightarrow> error + mine_state" where
  "underground_input dt ks w =
     (case read_direction ks ((ug_mole w)\<lparr>can_move_timer := can_move_timer (ug_mole w) - dt\<rparr>) of
        (dx, dy, m1) \<Rightarrow>
          if dx \<noteq> 0 \<or> dy \<noteq> 0 then attempt_move dx dy (w\<lparr>ug_mole := m1\<rparr>)
          else if can_move_timer m1 \<le> 0 then Inr (w\<lparr>ug_mole := m1\<lparr>state := IDLE\<rparr>\<rparr>)
          else Inr (w\<lparr>ug_mole := m1\<rparr>))"

definition underground_follow :: "int \<Rightarrow> mine_state \<Rightarrow> error + mine_state" where
  "underground_follow dt w =
     (let m = process_animation dt (ug_mole w);
          cam = camera_follow (grid_y m) (camera_y w)
      in case ensure_generated
                (\<lfloor>(cam + real_of_int HEIGHT) / real_of_int TILE_SIZE\<rfloor> + 10)
                (terrain w) (rng w) of
           Inl e \<Rightarrow> Inl e
         | Inr (t', rng') \<Rightarrow>
             Inr (w\<lparr>ug_mole := m, camera_y := cam, terrain := t', rng := rng'\<rparr>))"

definition underground_update :: "int \<Rightarrow> keys \<Rightarrow> mine_state \<Rightarrow> error + mine_state" where
  "underground_update dt ks w =
     (case underground_input dt ks w of
        Inl e \<Rightarrow> Inl e
      | Inr w' \<Rightarrow> underground_follow dt w')"

text \<open>
  Lines 315 to 320: the mine as \<^verbatim>\<open>main\<close> sets it up, with the session of line 270. The
  last step assigns \<^verbatim>\<open>[EMPTY, 0]\<close> to the cell the mole starts in.
\<close>

definition mine_init :: "real stream \<Rightarrow> error + mine_state" where
  "mine_init rng0 =
     (let mole = GridMole_init (COLS div 2) 5
      in case ensure_generated (ROWS + 5) Terrain_init rng0 of
           Inl e \<Rightarrow> Inl e
         | Inr (t, rng1) \<Rightarrow>
             Inr \<lparr>terrain = t\<lparr>grid := (grid t)((grid_x mole, grid_y mole) \<mapsto> (EMPTY, 0))\<rparr>,
                  ug_mole = mole, session = GameSession_init,
                  particle_pool = ParticlePool_init 256, camera_y = 0, rng = rng1\<rparr>)"

text \<open>A run of frames, stopping at the first error as the exception would.\<close>

fun run_frames :: "(int \<times> keys) list \<Rightarrow> mine_state \<Rightarrow> error + mine_state" where
  "run_frames [] w = Inr w"
| "run_frames ((dt, ks) # rest) w =
     (case underground_update dt ks w of
        Inl e \<Rightarrow> Inl e
      | Inr w' \<Rightarrow> run_frames rest w')"

text \<open>Repeating the same attempt \<open>n\<close> times: \<open>n\<close> hits in the same direction.\<close>

fun attempts :: "nat \<Rightarrow> int \<Rightarrow> int \<Rightarrow> mine_state \<Rightarrow> error + mine_state" where
  "attempts 0 dx dy w = Inr w"
| "attempts (Suc n) dx dy w =
     (case attempt_move dx dy w of
        Inl e \<Rightarrow> Inl e
      | Inr w' \<Rightarrow> attempts n dx dy w')"





section \<open>Small mines for evaluation\<close>

text \<open>
  A mine with the given grid, generated down to row 40, the mole at its starting cell
  \<open>(10, 5)\<close> with the timer run out, a new session and an empty pool; the generator always
  draws 0. And the key snapshot with only the Down arrow pressed.
\<close>

definition mine_with :: "grid_map \<Rightarrow> mine_state" where
  "mine_with g =
     \<lparr>terrain = \<lparr>grid = g, highest_y_generated = 40\<rparr>,
      ug_mole = GridMole_init 10 5, session = GameSession_init,
      particle_pool = ParticlePool_init 256, camera_y = 0, rng = sconst 0\<rparr>"

definition keys_down :: keys where
  "keys_down = \<lparr>K_LEFT = False, K_a = False, K_RIGHT = False, K_d = False,
                 K_DOWN = True, K_s = False, K_UP = False, K_w = False\<rparr>"

section \<open>Predicates used in the statements\<close>

text \<open>Every draw of the generator lies in \<open>[0, 1)\<close>, as \<^verbatim>\<open>random()\<close> promises.\<close>

definition unit_draws :: "real stream \<Rightarrow> bool" where
  "unit_draws r = (\<forall>u \<in> sset r. 0 \<le> u \<and> u < 1)"

text \<open>A slot as \<^verbatim>\<open>emit\<close> leaves it when it claims it for position \<open>(x, y)\<close> and colour \<open>c\<close>.\<close>

definition claimed :: "real \<Rightarrow> real \<Rightarrow> rgb \<Rightarrow> Particle \<Rightarrow> bool" where
  "claimed x y c q =
     (active q \<and> pos_x q = x \<and> pos_y q = y \<and> color q = c \<and> life q = 255
      \<and> - 3 \<le> vx q \<and> vx q \<le> 3 \<and> - 5 \<le> vy q \<and> vy q \<le> - 1)"

text \<open>
  The largest durability of a kind, \<^verbatim>\<open>DURABILITY.get(tile_id, 1)\<close> as \<^verbatim>\<open>Terrain.draw\<close> and
  \<^verbatim>\<open>generate_row\<close> read it, and the invariant of a cell: the durability lies between 0 and
  that maximum, and it is 0 exactly for an Empty cell.
\<close>

definition max_durability :: "tile \<Rightarrow> int" where
  "max_durability k = dict_get DURABILITY k 1"

definition cell_ok :: "cell \<Rightarrow> bool" where
  "cell_ok c = (0 \<le> snd c \<and> snd c \<le> max_durability (fst c) \<and> (fst c = EMPTY \<longleftrightarrow> snd c = 0))"

definition grid_ok :: "grid_map \<Rightarrow> bool" where
  "grid_ok g = (\<forall>p k d. g p = Some (k, d) \<longrightarrow> cell_ok (k, d))"

text \<open>A cell as \<^verbatim>\<open>generate_row\<close> writes it: one of the six kinds, at full durability.\<close>

definition fresh_cell :: "cell option \<Rightarrow> bool" where
  "fresh_cell c = (\<exists>k \<in> set choices. c = Some (k, dict_get DURABILITY k 1))"

text \<open>What lines 420 to 459 do to the grid in one frame: nothing, a hit that leaves the tile
  standing, or the hit that destroys it, after which the mole stands in the cell.\<close>

definition grid_step :: "mine_state \<Rightarrow> mine_state \<Rightarrow> bool" where
  "grid_step w w' =
     (terrain w' = terrain w
      \<or> (\<exists>p k hp. grid (terrain w) p = Some (k, hp) \<and> k \<noteq> EMPTY \<and> k \<noteq> ROCK \<and> 1 < hp
            \<and> terrain w' = (terrain w)\<lparr>grid := (grid (terrain w))(p \<mapsto> (k, hp - 1))\<rparr>)
      \<or> (\<exists>p k hp. grid (terrain w) p = Some (k, hp) \<and> k \<noteq> EMPTY \<and> k \<noteq> ROCK \<and> hp \<le> 1
            \<and> terrain w' = (terrain w)\<lparr>grid := (grid (terrain w))(p \<mapsto> (EMPTY, hp - 1))\<rparr>
            \<and> p = (grid_x (ug_mole w'), grid_y (ug_mole w'))))"

text \<open>No cell lies below the frontier \<^verbatim>\<open>highest_y_generated\<close>.\<close>

definition terrain_wf :: "Terrain \<Rightarrow> bool" where
  "terrain_wf t = (\<forall>p. p \<in> dom (grid t) \<longrightarrow> snd p \<le> highest_y_generated t)"



section \<open>Basic facts about the generator and the weights\<close>

lemma getitem_DURABILITY_DIRT: "getitem DURABILITY DIRT = Inr 1"
  by (simp add: getitem_def DURABILITY_def)

lemma dirt_row_eq:
  "dirt_row xs y g = Inr (\<lambda>p. if snd p = y \<and> fst p \<in> set xs then Some (DIRT, 1) else g p)"
proof (induction xs arbitrary: g)
  case Nil
  show ?case by simp
next
  case (Cons x xs)
  show ?case
    by (simp add: getitem_DURABILITY_DIRT Cons.IH) (rule ext, auto)
qed

lemma bisect_le: "lo \<le> hi \<Longrightarrow> bisect a v lo hi \<le> hi"
proof (induction a v lo hi rule: bisect.induct)
  case (1 a v lo hi)
  show ?case
  proof (cases "lo < hi")
    case False
    then show ?thesis using "1.prems" by (subst bisect.simps) simp
  next
    case True
    let ?mid = "(lo + hi) div 2"
    have mid: "lo \<le> ?mid" "?mid < hi" "?mid + 1 \<le> hi" using True by auto
    show ?thesis
    proof (cases "v < a ! ?mid")
      case True
      have "bisect a v lo ?mid \<le> ?mid" using "1.IH"(1) [OF \<open>lo < hi\<close> True mid(1)] .
      then show ?thesis using True \<open>lo < hi\<close> mid by (subst bisect.simps) simp
    next
      case False
      have "bisect a v (?mid + 1) hi \<le> hi" using "1.IH"(2) [OF \<open>lo < hi\<close> False mid(3)] .
      then show ?thesis using False \<open>lo < hi\<close> by (subst bisect.simps) simp
    qed
  qed
qed

lemma scaled_weight_simps:
  "scaled_weight ''ROCK'' sd = Inr (10 + real_of_int sd * (5 / 100))"
  "scaled_weight ''BRONZE'' sd = Inr (15 + real_of_int sd * (- (1 / 10)))"
  "scaled_weight ''SILVER'' sd = Inr (8 + real_of_int sd * (- (5 / 100)))"
  "scaled_weight ''GOLD'' sd = Inr (3 + real_of_int sd * (15 / 100))"
  "scaled_weight ''DIAMOND'' sd = Inr (1 + real_of_int sd * (1 / 10))"
  by (simp_all add: scaled_weight_def getitem_def ORE_CONFIG_def)

lemma row_weights_deep:
  "20 < y \<Longrightarrow> row_weights y =
     Inr [max 10 (100 - (max 5 (10 + real_of_int (y - 20) * (5 / 100))
                        + max 1 (15 + real_of_int (y - 20) * (- (1 / 10)))
                        + max 1 (8 + real_of_int (y - 20) * (- (5 / 100)))
                        + (3 + real_of_int (y - 20) * (15 / 100))
                        + (1 + real_of_int (y - 20) * (1 / 10)))),
          max 5 (10 + real_of_int (y - 20) * (5 / 100)),
          max 1 (15 + real_of_int (y - 20) * (- (1 / 10))),
          max 1 (8 + real_of_int (y - 20) * (- (5 / 100))),
          3 + real_of_int (y - 20) * (15 / 100),
          1 + real_of_int (y - 20) * (1 / 10)]"
  by (simp add: row_weights_def scaled_weight_simps Let_def max_def)

lemma row_weights_shallow: "y \<le> 20 \<Longrightarrow> row_weights y = Inr [71, 10, 8, 4, 1, 1]"
  by (simp add: row_weights_def Let_def max_def)

lemma generate_row_shallow:
  "y < 10 \<Longrightarrow> generate_row y t r =
     Inr (if (0, y) \<in> dom (grid t) then t
          else t\<lparr>grid := (\<lambda>p. if snd p = y \<and> fst p \<in> set [0 .. COLS - 1] then Some (DIRT, 1)
                             else grid t p)\<rparr>, r)"
  by (simp add: generate_row_def dirt_row_eq)

section \<open>What generation writes\<close>

lemma random_choices_choices:
  assumes "length ws = 6" and "0 < sum_list ws"
  shows "\<exists>k. random_choices choices ws r = Inr (k, stl r) \<and> k \<in> set choices"
proof -
  obtain a b c d e f where ws: "ws = [a, b, c, d, e, f]"
    using assms(1) by (auto simp: length_Suc_conv numeral_eq_Suc)
  have tot: "last (accumulate 0 ws) = sum_list ws" by (simp add: ws)
  have len: "length (accumulate 0 ws) = 6" by (simp add: ws)
  have "bisect (accumulate 0 ws) (shd r * sum_list ws) 0 5 \<le> 5"
    by (rule bisect_le) simp
  then have "bisect (accumulate 0 ws) (shd r * sum_list ws) 0 5 < length choices"
    by (simp add: choices_def)
  then have "choices ! bisect (accumulate 0 ws) (shd r * sum_list ws) 0 5 \<in> set choices"
    by (rule nth_mem)
  moreover have "length choices = 6" by (simp add: choices_def)
  ultimately show ?thesis
    using assms(2) len tot by (simp add: random_choices_def Let_def)
qed

lemma row_weights_valid: "\<exists>ws. row_weights y = Inr ws \<and> length ws = 6 \<and> 0 < sum_list ws"
proof (cases "20 < y")
  case True
  show ?thesis unfolding row_weights_deep [OF True] by (simp add: max_def)
next
  case False
  then show ?thesis by (simp add: row_weights_shallow)
qed

lemma cell_ok_fresh: "k \<in> set choices \<Longrightarrow> cell_ok (k, dict_get DURABILITY k 1)"
  by (auto simp: choices_def cell_ok_def max_durability_def dict_get_def DURABILITY_def)

lemma random_row_cells:
  assumes "length ws = 6" and "0 < sum_list ws"
  shows "\<exists>g' r'. random_row xs y ws r g = Inr (g', r')
           \<and> (\<forall>p. if snd p = y \<and> fst p \<in> set xs then fresh_cell (g' p) else g' p = g p)"
proof (induction xs arbitrary: r g)
  case Nil
  show ?case by simp
next
  case (Cons x xs)
  obtain k where k: "random_choices choices ws r = Inr (k, stl r)" "k \<in> set choices"
    using random_choices_choices [OF assms] by blast
  let ?g1 = "g((x, y) \<mapsto> (k, dict_get DURABILITY k 1))"
  obtain g' r' where g': "random_row xs y ws (stl r) ?g1 = Inr (g', r')"
    "\<forall>p. if snd p = y \<and> fst p \<in> set xs then fresh_cell (g' p) else g' p = ?g1 p"
    using Cons.IH [of "stl r" ?g1] by blast
  have "\<forall>p. if snd p = y \<and> fst p \<in> set (x # xs) then fresh_cell (g' p) else g' p = g p"
  proof
    fix p
    show "if snd p = y \<and> fst p \<in> set (x # xs) then fresh_cell (g' p) else g' p = g p"
    proof (cases "snd p = y \<and> fst p \<in> set xs")
      case True
      then show ?thesis using g'(2) [rule_format, of p] by simp
    next
      case False
      then have eq: "g' p = ?g1 p" using g'(2) [rule_format, of p] by simp
      show ?thesis
      proof (cases "p = (x, y)")
        case True
        then show ?thesis using eq k(2) by (auto simp: fresh_cell_def)
      next
        case ne: False
        then have "\<not> (snd p = y \<and> fst p \<in> set (x # xs))" using False by (cases p) auto
        then show ?thesis using eq by auto
      qed
    qed
  qed
  then show ?case using k(1) g'(1) by simp
qed

lemma set_cols: "set [0 .. COLS - 1] = {x. 0 \<le> x \<and> x < COLS}"
  by auto

lemma generate_row_cells:
  "\<exists>t' r'. generate_row y t r = Inr (t', r')
     \<and> highest_y_generated t' = highest_y_generated t
     \<and> (\<forall>p. if snd p = y \<and> 0 \<le> fst p \<and> fst p < COLS \<and> (0, y) \<notin> dom (grid t)
             then fresh_cell (grid t' p) else grid t' p = grid t p)"
proof (cases "(0, y) \<in> dom (grid t)")
  case True
  then show ?thesis by (simp add: generate_row_def)
next
  case absent: False
  show ?thesis
  proof (cases "y < 10")
    case True
    have "fresh_cell (Some (DIRT, 1))"
      by (simp add: fresh_cell_def choices_def dict_get_def DURABILITY_def)
    then show ?thesis using absent True
      by (simp add: generate_row_shallow set_cols)
  next
    case False
    obtain ws where ws: "row_weights y = Inr ws" "length ws = 6" "0 < sum_list ws"
      using row_weights_valid by blast
    obtain g' r' where g': "random_row [0 .. COLS - 1] y ws r (grid t) = Inr (g', r')"
      "\<forall>p. if snd p = y \<and> fst p \<in> set [0 .. COLS - 1] then fresh_cell (g' p) else g' p = grid t p"
      using random_row_cells [OF ws(2,3)] by blast
    have "generate_row y t r = Inr (t\<lparr>grid := g'\<rparr>, r')"
      using absent False ws(1) g'(1) by (simp add: generate_row_def)
    moreover have "\<forall>p. if snd p = y \<and> 0 \<le> fst p \<and> fst p < COLS \<and> (0, y) \<notin> dom (grid t)
             then fresh_cell (grid (t\<lparr>grid := g'\<rparr>) p) else grid (t\<lparr>grid := g'\<rparr>) p = grid t p"
      using g'(2) absent unfolding set_cols by simp
    ultimately show ?thesis by simp
  qed
qed

lemma generate_rows_cells:
  "\<exists>t' r'. generate_rows ys t r = Inr (t', r')
     \<and> highest_y_generated t' = highest_y_generated t
     \<and> (\<forall>p. grid t' p = grid t p \<or> (snd p \<in> set ys \<and> fresh_cell (grid t' p)))"
proof (induction ys arbitrary: t r)
  case Nil
  show ?case by simp
next
  case (Cons y ys)
  obtain t1 r1 where 1: "generate_row y t r = Inr (t1, r1)"
    "highest_y_generated t1 = highest_y_generated t"
    "\<forall>p. if snd p = y \<and> 0 \<le> fst p \<and> fst p < COLS \<and> (0, y) \<notin> dom (grid t)
             then fresh_cell (grid t1 p) else grid t1 p = grid t p"
    using generate_row_cells [of y t r] by blast
  obtain t2 r2 where 2: "generate_rows ys t1 r1 = Inr (t2, r2)"
    "highest_y_generated t2 = highest_y_generated t1"
    "\<forall>p. grid t2 p = grid t1 p \<or> (snd p \<in> set ys \<and> fresh_cell (grid t2 p))"
    using Cons.IH [of t1 r1] by blast
  have "\<forall>p. grid t2 p = grid t p \<or> (snd p \<in> set (y # ys) \<and> fresh_cell (grid t2 p))"
  proof
    fix p
    show "grid t2 p = grid t p \<or> (snd p \<in> set (y # ys) \<and> fresh_cell (grid t2 p))"
      using 1(3) [rule_format, of p] 2(3) [rule_format, of p]
      by (auto split: if_splits)
  qed
  then show ?case using 1(1,2) 2(1,2) by simp
qed

lemma ensure_generated_cells:
  "\<exists>t' r'. ensure_generated target t r = Inr (t', r')
     \<and> highest_y_generated t' = max target (highest_y_generated t)
     \<and> (\<forall>p. grid t' p = grid t p
            \<or> (highest_y_generated t < snd p \<and> snd p \<le> target \<and> fresh_cell (grid t' p)))"
proof (cases "target > highest_y_generated t")
  case False
  then show ?thesis by (simp add: ensure_generated_def)
next
  case True
  obtain t1 r1 where 1: "generate_rows [highest_y_generated t + 1 .. target] t r = Inr (t1, r1)"
    "highest_y_generated t1 = highest_y_generated t"
    "\<forall>p. grid t1 p = grid t p
         \<or> (snd p \<in> set [highest_y_generated t + 1 .. target] \<and> fresh_cell (grid t1 p))"
    using generate_rows_cells [of "[highest_y_generated t + 1 .. target]" t r] by blast
  have "\<forall>p. grid t1 p = grid t p
            \<or> (highest_y_generated t < snd p \<and> snd p \<le> target \<and> fresh_cell (grid t1 p))"
  proof
    fix p
    show "grid t1 p = grid t p
            \<or> (highest_y_generated t < snd p \<and> snd p \<le> target \<and> fresh_cell (grid t1 p))"
      using 1(3) [rule_format, of p] by auto
  qed
  then show ?thesis using True 1(1) by (simp add: ensure_generated_def)
qed

lemma fresh_cell_ok: "fresh_cell (Some (k, d)) \<Longrightarrow> cell_ok (k, d) \<and> k \<noteq> EMPTY"
  using cell_ok_fresh by (auto simp: fresh_cell_def choices_def)

lemma ensure_generated_grid_ok:
  assumes "ensure_generated target t r = Inr (t', r')" and "grid_ok (grid t)"
  shows "grid_ok (grid t')"
  unfolding grid_ok_def
proof (intro allI impI)
  fix p k d assume c: "grid t' p = Some (k, d)"
  from ensure_generated_cells [of target t r] assms(1)
  have "\<forall>q. grid t' q = grid t q \<or> fresh_cell (grid t' q)" by auto
  then have "grid t' p = grid t p \<or> fresh_cell (grid t' p)" by (rule spec)
  then show "cell_ok (k, d)"
  proof
    assume "grid t' p = grid t p"
    then show ?thesis using c assms(2) unfolding grid_ok_def by metis
  next
    assume "fresh_cell (grid t' p)"
    then show ?thesis using c fresh_cell_ok by simp
  qed
qed

lemma terrain_wfD: "terrain_wf t \<Longrightarrow> p \<in> dom (grid t) \<Longrightarrow> snd p \<le> highest_y_generated t"
  unfolding terrain_wf_def by blast

lemma ensure_generated_wf:
  assumes "ensure_generated target t r = Inr (t', r')" and "terrain_wf t"
  shows "terrain_wf t' \<and> (\<forall>p. p \<in> dom (grid t) \<longrightarrow> grid t' p = grid t p)"
proof -
  from ensure_generated_cells [of target t r] assms(1)
  have h: "highest_y_generated t' = max target (highest_y_generated t)"
    and c: "\<forall>p. grid t' p = grid t p
            \<or> (highest_y_generated t < snd p \<and> snd p \<le> target \<and> fresh_cell (grid t' p))"
    by auto
  have "terrain_wf t'"
    unfolding terrain_wf_def
  proof (intro allI impI)
    fix p assume d: "p \<in> dom (grid t')"
    from c [rule_format, of p] show "snd p \<le> highest_y_generated t'"
    proof
      assume "grid t' p = grid t p"
      then have "p \<in> dom (grid t)" using d by (simp add: dom_def)
      with assms(2) have "snd p \<le> highest_y_generated t" by (rule terrain_wfD)
      then show ?thesis using h by simp
    next
      assume "highest_y_generated t < snd p \<and> snd p \<le> target \<and> fresh_cell (grid t' p)"
      then show ?thesis using h by simp
    qed
  qed
  moreover have "\<forall>p. p \<in> dom (grid t) \<longrightarrow> grid t' p = grid t p"
  proof (intro allI impI)
    fix p assume "p \<in> dom (grid t)"
    with assms(2) have "snd p \<le> highest_y_generated t" by (rule terrain_wfD)
    then show "grid t' p = grid t p" using c [rule_format, of p] by auto
  qed
  ultimately show ?thesis by simp
qed

section \<open>Basic facts about the particle pool\<close>

lemma unit_draws_stl: "unit_draws r \<Longrightarrow> unit_draws (stl r)"
  unfolding unit_draws_def by (metis stl_sset)

lemma unit_draws_shd: "unit_draws r \<Longrightarrow> 0 \<le> shd r \<and> shd r < 1"
  unfolding unit_draws_def by (simp add: shd_sset)

lemma emit_loop_length: "length (fst (emit_loop x y c n e r ps)) = length ps"
  by (induction ps arbitrary: e r) (simp_all add: uniform_def Let_def split_beta)

lemma emit_loop_draws: "unit_draws r \<Longrightarrow> unit_draws (snd (emit_loop x y c n e r ps))"
  by (induction ps arbitrary: e r) (simp_all add: uniform_def Let_def split_beta unit_draws_stl)

lemma emit_loop_active_count:
  "active_count (fst (emit_loop x y c n e r ps))
     = active_count ps + min (nat (max 1 (n - e))) (free_count ps)"
proof (induction ps arbitrary: e r)
  case Nil
  show ?case by (simp add: active_count_def free_count_def)
next
  case (Cons p ps)
  show ?case
  proof (cases "active p")
    case True
    then show ?thesis
      using Cons.IH [of e r]
      by (simp add: active_count_def free_count_def split_beta)
  next
    case False
    show ?thesis
    proof (cases "e + 1 \<ge> n")
      case True
      then have "nat (max 1 (n - e)) = 1" by (auto simp: max_def)
      then show ?thesis using False True
        by (simp add: active_count_def free_count_def uniform_def Let_def split_beta)
    next
      case False': False
      have "nat (max 1 (n - e)) = Suc (nat (max 1 (n - (e + 1))))"
        using False' by (simp add: max_def)
      then show ?thesis
        using False False' Cons.IH [of "e + 1" "stl (stl r)"]
        by (simp add: active_count_def free_count_def uniform_def Let_def split_beta)
    qed
  qed
qed

lemma emit_loop_slots:
  "unit_draws r \<Longrightarrow>
     list_all2 (\<lambda>p q. q = p \<or> (\<not> active p \<and> claimed x y c q)) ps (fst (emit_loop x y c n e r ps))"
proof (induction ps arbitrary: e r)
  case Nil
  show ?case by simp
next
  case (Cons p ps)
  have same: "list_all2 (\<lambda>p q. q = p \<or> (\<not> active p \<and> claimed x y c q)) ps ps"
    by (simp add: list_all2_same)
  have u: "0 \<le> shd r \<and> shd r < 1" "0 \<le> shd (stl r) \<and> shd (stl r) < 1"
    using Cons.prems unit_draws_shd unit_draws_stl by blast+
  have v: "- 3 \<le> - 3 + (3 - - 3) * shd r \<and> - 3 + (3 - - 3) * shd r \<le> 3"
          "- 5 \<le> - 5 + (- 1 - - 5) * shd (stl r) \<and> - 5 + (- 1 - - 5) * shd (stl r) \<le> - 1"
    using u by auto
  show ?case
  proof (cases "active p")
    case True
    then show ?thesis using Cons.IH [OF Cons.prems, of e]
      by (simp add: split_beta)
  next
    case False
    then show ?thesis
      using Cons.IH [of "stl (stl r)" "e + 1"] Cons.prems same v
      by (simp add: uniform_def Let_def claimed_def unit_draws_stl split_beta)
  qed
qed

section \<open>The cases of a move or mining attempt\<close>

lemma attempt_move_outside:
  "\<not> (0 \<le> grid_x (ug_mole w) + dx \<and> grid_x (ug_mole w) + dx < COLS \<and> 0 \<le> grid_y (ug_mole w) + dy)
     \<Longrightarrow> attempt_move dx dy w = Inr (w\<lparr>ug_mole := (ug_mole w)\<lparr>state := IDLE\<rparr>\<rparr>)"
  by (auto simp: attempt_move_def Let_def)

lemma attempt_move_rock:
  "grid (terrain w) (grid_x (ug_mole w) + dx, grid_y (ug_mole w) + dy) = Some (ROCK, d)
     \<Longrightarrow> attempt_move dx dy w = Inr (w\<lparr>ug_mole := (ug_mole w)\<lparr>state := IDLE\<rparr>\<rparr>)"
  by (simp add: attempt_move_def Let_def dict_get_def)

lemma attempt_move_empty:
  "0 \<le> grid_x (ug_mole w) + dx \<Longrightarrow> grid_x (ug_mole w) + dx < COLS \<Longrightarrow> 0 \<le> grid_y (ug_mole w) + dy
     \<Longrightarrow> grid (terrain w) (grid_x (ug_mole w) + dx, grid_y (ug_mole w) + dy) = Some (EMPTY, d)
     \<Longrightarrow> attempt_move dx dy w =
           Inr (w\<lparr>ug_mole := move_into (grid_x (ug_mole w) + dx) (grid_y (ug_mole w) + dy) dx dy (ug_mole w)\<rparr>)"
  by (simp add: attempt_move_def Let_def dict_get_def)

lemma attempt_move_missing:
  "0 \<le> grid_x (ug_mole w) + dx \<Longrightarrow> grid_x (ug_mole w) + dx < COLS \<Longrightarrow> 0 \<le> grid_y (ug_mole w) + dy
     \<Longrightarrow> grid (terrain w) (grid_x (ug_mole w) + dx, grid_y (ug_mole w) + dy) = None
     \<Longrightarrow> attempt_move dx dy w = Inl KeyError"
  by (simp add: attempt_move_def Let_def dict_get_def getitem_def)

lemma attempt_move_hit:
  "0 \<le> grid_x (ug_mole w) + dx \<Longrightarrow> grid_x (ug_mole w) + dx < COLS \<Longrightarrow> 0 \<le> grid_y (ug_mole w) + dy
     \<Longrightarrow> grid (terrain w) (grid_x (ug_mole w) + dx, grid_y (ug_mole w) + dy) = Some (k, hp)
     \<Longrightarrow> k \<noteq> EMPTY \<Longrightarrow> k \<noteq> ROCK \<Longrightarrow> 1 < hp
     \<Longrightarrow> attempt_move dx dy w =
           Inr (w\<lparr>terrain := (terrain w)\<lparr>grid :=
                      (grid (terrain w))((grid_x (ug_mole w) + dx, grid_y (ug_mole w) + dy) \<mapsto> (k, hp - 1))\<rparr>,
                  ug_mole := (ug_mole w)\<lparr>can_move_timer := dig_cooldown (shovel_level (session w)),
                                           state := MINING\<rparr>\<rparr>)"
  by (simp add: attempt_move_def Let_def dict_get_def getitem_def)

lemma attempt_move_destroy:
  "0 \<le> grid_x (ug_mole w) + dx \<Longrightarrow> grid_x (ug_mole w) + dx < COLS \<Longrightarrow> 0 \<le> grid_y (ug_mole w) + dy
     \<Longrightarrow> grid (terrain w) (grid_x (ug_mole w) + dx, grid_y (ug_mole w) + dy) = Some (k, hp)
     \<Longrightarrow> k \<noteq> EMPTY \<Longrightarrow> k \<noteq> ROCK \<Longrightarrow> hp \<le> 1
     \<Longrightarrow> attempt_move dx dy w =
           Inr (w\<lparr>terrain := (terrain w)\<lparr>grid :=
                      (grid (terrain w))((grid_x (ug_mole w) + dx, grid_y (ug_mole w) + dy) \<mapsto> (EMPTY, hp - 1))\<rparr>,
                  ug_mole := move_into (grid_x (ug_mole w) + dx) (grid_y (ug_mole w) + dy) dx dy (ug_mole w),
                  session := (session w)\<lparr>inventory := credit_ore k (inventory (session w))\<rparr>,
                  particle_pool := fst (emit (real_of_int ((grid_x (ug_mole w) + dx) * TILE_SIZE + 16))
                                             (real_of_int ((grid_y (ug_mole w) + dy) * TILE_SIZE + 16))
                                             (TILE_COLORS k) 8 (rng w) (particle_pool w)),
                  rng := snd (emit (real_of_int ((grid_x (ug_mole w) + dx) * TILE_SIZE + 16))
                                             (real_of_int ((grid_y (ug_mole w) + dy) * TILE_SIZE + 16))
                                             (TILE_COLORS k) 8 (rng w) (particle_pool w))\<rparr>)"
  by (simp add: attempt_move_def Let_def dict_get_def getitem_def split_beta)

lemma attempts_partial:
  "grid (terrain w) (grid_x (ug_mole w) + dx, grid_y (ug_mole w) + dy) = Some (kind, k)
   \<Longrightarrow> kind \<noteq> EMPTY \<Longrightarrow> kind \<noteq> ROCK
   \<Longrightarrow> 0 \<le> grid_x (ug_mole w) + dx \<Longrightarrow> grid_x (ug_mole w) + dx < COLS \<Longrightarrow> 0 \<le> grid_y (ug_mole w) + dy
   \<Longrightarrow> int j < k
   \<Longrightarrow> \<exists>w'. attempts j dx dy w = Inr w'
          \<and> grid (terrain w') (grid_x (ug_mole w) + dx, grid_y (ug_mole w) + dy) = Some (kind, k - int j)
          \<and> session w' = session w \<and> particle_pool w' = particle_pool w \<and> rng w' = rng w
          \<and> grid_x (ug_mole w') = grid_x (ug_mole w) \<and> grid_y (ug_mole w') = grid_y (ug_mole w)"
proof (induction j arbitrary: w k)
  case 0
  then show ?case by simp
next
  case (Suc j)
  let ?p = "(grid_x (ug_mole w) + dx, grid_y (ug_mole w) + dy)"
  let ?w1 = "w\<lparr>terrain := (terrain w)\<lparr>grid := (grid (terrain w))(?p \<mapsto> (kind, k - 1))\<rparr>,
               ug_mole := (ug_mole w)\<lparr>can_move_timer := dig_cooldown (shovel_level (session w)),
                                        state := MINING\<rparr>\<rparr>"
  have k: "1 < k" using Suc.prems(7) by simp
  have step: "attempt_move dx dy w = Inr ?w1"
    using attempt_move_hit [OF Suc.prems(4,5,6,1,2,3) k] .
  have "\<exists>w'. attempts j dx dy ?w1 = Inr w'
          \<and> grid (terrain w') (grid_x (ug_mole ?w1) + dx, grid_y (ug_mole ?w1) + dy) = Some (kind, (k - 1) - int j)
          \<and> session w' = session ?w1 \<and> particle_pool w' = particle_pool ?w1 \<and> rng w' = rng ?w1
          \<and> grid_x (ug_mole w') = grid_x (ug_mole ?w1) \<and> grid_y (ug_mole w') = grid_y (ug_mole ?w1)"
    using Suc.prems by (intro Suc.IH) simp_all
  then show ?case using step by (simp add: algebra_simps)
qed

lemma attempts_destroy:
  "grid (terrain w) (grid_x (ug_mole w) + dx, grid_y (ug_mole w) + dy) = Some (kind, int (Suc n))
   \<Longrightarrow> kind \<noteq> EMPTY \<Longrightarrow> kind \<noteq> ROCK
   \<Longrightarrow> 0 \<le> grid_x (ug_mole w) + dx \<Longrightarrow> grid_x (ug_mole w) + dx < COLS \<Longrightarrow> 0 \<le> grid_y (ug_mole w) + dy
   \<Longrightarrow> \<exists>w'. attempts (Suc n) dx dy w = Inr w'
          \<and> grid (terrain w') (grid_x (ug_mole w) + dx, grid_y (ug_mole w) + dy) = Some (EMPTY, 0)
          \<and> inventory (session w') = credit_ore kind (inventory (session w))
          \<and> particle_pool w' = fst (emit (real_of_int ((grid_x (ug_mole w) + dx) * TILE_SIZE + 16))
                                             (real_of_int ((grid_y (ug_mole w) + dy) * TILE_SIZE + 16))
                                             (TILE_COLORS kind) 8 (rng w) (particle_pool w))
          \<and> grid_x (ug_mole w') = grid_x (ug_mole w) + dx \<and> grid_y (ug_mole w') = grid_y (ug_mole w) + dy"
proof (induction n arbitrary: w)
  case 0
  have "attempt_move dx dy w = Inr (w\<lparr>terrain := (terrain w)\<lparr>grid :=
                      (grid (terrain w))((grid_x (ug_mole w) + dx, grid_y (ug_mole w) + dy) \<mapsto> (EMPTY, int (Suc 0) - 1))\<rparr>,
                  ug_mole := move_into (grid_x (ug_mole w) + dx) (grid_y (ug_mole w) + dy) dx dy (ug_mole w),
                  session := (session w)\<lparr>inventory := credit_ore kind (inventory (session w))\<rparr>,
                  particle_pool := fst (emit (real_of_int ((grid_x (ug_mole w) + dx) * TILE_SIZE + 16))
                                             (real_of_int ((grid_y (ug_mole w) + dy) * TILE_SIZE + 16))
                                             (TILE_COLORS kind) 8 (rng w) (particle_pool w)),
                  rng := snd (emit (real_of_int ((grid_x (ug_mole w) + dx) * TILE_SIZE + 16))
                                             (real_of_int ((grid_y (ug_mole w) + dy) * TILE_SIZE + 16))
                                             (TILE_COLORS kind) 8 (rng w) (particle_pool w))\<rparr>)"
    using "0.prems" by (intro attempt_move_destroy) simp_all
  then show ?case by (simp add: move_into_def)
next
  case (Suc n)
  let ?p = "(grid_x (ug_mole w) + dx, grid_y (ug_mole w) + dy)"
  let ?w1 = "w\<lparr>terrain := (terrain w)\<lparr>grid := (grid (terrain w))(?p \<mapsto> (kind, int (Suc (Suc n)) - 1))\<rparr>,
               ug_mole := (ug_mole w)\<lparr>can_move_timer := dig_cooldown (shovel_level (session w)),
                                        state := MINING\<rparr>\<rparr>"
  have step: "attempt_move dx dy w = Inr ?w1"
    using Suc.prems by (intro attempt_move_hit) simp_all
  have "\<exists>w'. attempts (Suc n) dx dy ?w1 = Inr w'
          \<and> grid (terrain w') (grid_x (ug_mole ?w1) + dx, grid_y (ug_mole ?w1) + dy) = Some (EMPTY, 0)
          \<and> inventory (session w') = credit_ore kind (inventory (session ?w1))
          \<and> particle_pool w' = fst (emit (real_of_int ((grid_x (ug_mole ?w1) + dx) * TILE_SIZE + 16))
                                             (real_of_int ((grid_y (ug_mole ?w1) + dy) * TILE_SIZE + 16))
                                             (TILE_COLORS kind) 8 (rng ?w1) (particle_pool ?w1))
          \<and> grid_x (ug_mole w') = grid_x (ug_mole ?w1) + dx \<and> grid_y (ug_mole w') = grid_y (ug_mole ?w1) + dy"
    using Suc.prems by (intro Suc.IH) simp_all
  then show ?case using step by simp
qed

lemma mine_with_fields:
  "grid (terrain (mine_with g)) = g"
  "grid_x (ug_mole (mine_with g)) = 10"
  "grid_y (ug_mole (mine_with g)) = 5"
  "can_move_timer (ug_mole (mine_with g)) = 0"
  "inventory (session (mine_with g)) = [BRONZE \<mapsto> 0, SILVER \<mapsto> 0, GOLD \<mapsto> 0, DIAMOND \<mapsto> 0]"
  "particle_pool (mine_with g) = ParticlePool_init 256"
  "rng (mine_with g) = sconst 0"
  "highest_y_generated (terrain (mine_with g)) = 40"
  "camera_y (mine_with g) = 0"
  by (simp_all add: mine_with_def GridMole_init_def GameSession_init_def)

lemma COLS_eq: "COLS = 20"
  by (simp add: COLS_def WIDTH_def TILE_SIZE_def)

lemma credit_ore_slot: "items k = Some n \<Longrightarrow> credit_ore k items = items(k \<mapsto> n + 1)"
  by (simp add: credit_ore_def)

lemma credit_ore_no_slot: "items k = None \<Longrightarrow> credit_ore k items = items"
  by (simp add: credit_ore_def)

section \<open>One frame\<close>

lemma read_direction_mole:
  assumes "read_direction ks m = (dx, dy, m')"
  shows "grid_x m' = grid_x m \<and> grid_y m' = grid_y m \<and> state m' = state m
          \<and> can_move_timer m' = can_move_timer m"
  using assms by (auto simp: read_direction_def split: if_splits)

lemma process_animation_mole:
  "grid_x (process_animation dt m) = grid_x m \<and> grid_y (process_animation dt m) = grid_y m
     \<and> state (process_animation dt m) = state m"
  by (simp add: process_animation_def Let_def)

lemma attempt_move_cases:
  assumes "attempt_move dx dy w = Inr w'"
  obtains
    (same) "terrain w' = terrain w" "session w' = session w" "particle_pool w' = particle_pool w"
      "rng w' = rng w" "camera_y w' = camera_y w"
  | (hit) k hp where
      "grid (terrain w) (grid_x (ug_mole w) + dx, grid_y (ug_mole w) + dy) = Some (k, hp)"
      "k \<noteq> EMPTY" "k \<noteq> ROCK" "1 < hp"
      "terrain w' = (terrain w)\<lparr>grid :=
          (grid (terrain w))((grid_x (ug_mole w) + dx, grid_y (ug_mole w) + dy) \<mapsto> (k, hp - 1))\<rparr>"
      "session w' = session w" "particle_pool w' = particle_pool w" "rng w' = rng w"
      "camera_y w' = camera_y w"
      "grid_x (ug_mole w') = grid_x (ug_mole w)" "grid_y (ug_mole w') = grid_y (ug_mole w)"
  | (destroy) k hp where
      "grid (terrain w) (grid_x (ug_mole w) + dx, grid_y (ug_mole w) + dy) = Some (k, hp)"
      "k \<noteq> EMPTY" "k \<noteq> ROCK" "hp \<le> 1"
      "terrain w' = (terrain w)\<lparr>grid :=
          (grid (terrain w))((grid_x (ug_mole w) + dx, grid_y (ug_mole w) + dy) \<mapsto> (EMPTY, hp - 1))\<rparr>"
      "inventory (session w') = credit_ore k (inventory (session w))"
      "camera_y w' = camera_y w"
      "grid_x (ug_mole w') = grid_x (ug_mole w) + dx" "grid_y (ug_mole w') = grid_y (ug_mole w) + dy"
proof -
  let ?p = "(grid_x (ug_mole w) + dx, grid_y (ug_mole w) + dy)"
  show thesis
  proof (cases "0 \<le> grid_x (ug_mole w) + dx \<and> grid_x (ug_mole w) + dx < COLS \<and> 0 \<le> grid_y (ug_mole w) + dy")
    case False
    from attempt_move_outside [OF False] assms have "w' = w\<lparr>ug_mole := (ug_mole w)\<lparr>state := IDLE\<rparr>\<rparr>"
      by simp
    then show thesis by (intro same) simp_all
  next
    case True
    then have r: "0 \<le> grid_x (ug_mole w) + dx" "grid_x (ug_mole w) + dx < COLS" "0 \<le> grid_y (ug_mole w) + dy"
      by simp_all
    show thesis
    proof (cases "grid (terrain w) ?p")
      case None
      from attempt_move_missing [OF r None] assms show thesis by simp
    next
      case (Some c)
      obtain k hp where c: "c = (k, hp)" by (cases c)
      have cell: "grid (terrain w) ?p = Some (k, hp)" using Some c by simp
      consider "k = EMPTY" | "k = ROCK" | "k \<noteq> EMPTY" "k \<noteq> ROCK" "1 < hp"
        | "k \<noteq> EMPTY" "k \<noteq> ROCK" "hp \<le> 1"
        by linarith
      then show thesis
      proof cases
        case 1
        from attempt_move_empty [OF r cell [unfolded 1]] assms
        have "w' = w\<lparr>ug_mole := move_into (grid_x (ug_mole w) + dx) (grid_y (ug_mole w) + dy) dx dy (ug_mole w)\<rparr>"
          by simp
        then show thesis by (intro same) simp_all
      next
        case 2
        from attempt_move_rock [OF cell [unfolded 2]] assms
        have "w' = w\<lparr>ug_mole := (ug_mole w)\<lparr>state := IDLE\<rparr>\<rparr>" by simp
        then show thesis by (intro same) simp_all
      next
        case 3
        from attempt_move_hit [OF r cell 3] assms
        have "w' = w\<lparr>terrain := (terrain w)\<lparr>grid := (grid (terrain w))(?p \<mapsto> (k, hp - 1))\<rparr>,
                  ug_mole := (ug_mole w)\<lparr>can_move_timer := dig_cooldown (shovel_level (session w)),
                                           state := MINING\<rparr>\<rparr>" by simp
        then show thesis using cell 3 by (intro hit [of k hp]) simp_all
      next
        case 4
        from attempt_move_destroy [OF r cell 4] assms
        have "w' = w\<lparr>terrain := (terrain w)\<lparr>grid := (grid (terrain w))(?p \<mapsto> (EMPTY, hp - 1))\<rparr>,
                  ug_mole := move_into (grid_x (ug_mole w) + dx) (grid_y (ug_mole w) + dy) dx dy (ug_mole w),
                  session := (session w)\<lparr>inventory := credit_ore k (inventory (session w))\<rparr>,
                  particle_pool := fst (emit (real_of_int ((grid_x (ug_mole w) + dx) * TILE_SIZE + 16))
                                             (real_of_int ((grid_y (ug_mole w) + dy) * TILE_SIZE + 16))
                                             (TILE_COLORS k) 8 (rng w) (particle_pool w)),
                  rng := snd (emit (real_of_int ((grid_x (ug_mole w) + dx) * TILE_SIZE + 16))
                                             (real_of_int ((grid_y (ug_mole w) + dy) * TILE_SIZE + 16))
                                             (TILE_COLORS k) 8 (rng w) (particle_pool w))\<rparr>" by simp
        then show thesis using cell 4 by (intro destroy [of k hp]) (simp_all add: move_into_def)
      qed
    qed
  qed
qed

lemma underground_input_grid_step:
  assumes "underground_input dt ks w = Inr w'"
  shows "grid_step w w'"
proof -
  obtain dx dy m1 where rd:
    "read_direction ks ((ug_mole w)\<lparr>can_move_timer := can_move_timer (ug_mole w) - dt\<rparr>) = (dx, dy, m1)"
    by (cases "read_direction ks ((ug_mole w)\<lparr>can_move_timer := can_move_timer (ug_mole w) - dt\<rparr>)") auto
  show ?thesis
  proof (cases "dx \<noteq> 0 \<or> dy \<noteq> 0")
    case False
    then have "terrain w' = terrain w"
      using assms rd by (auto simp: underground_input_def split: if_splits)
    then show ?thesis by (simp add: grid_step_def)
  next
    case True
    then have a: "attempt_move dx dy (w\<lparr>ug_mole := m1\<rparr>) = Inr w'"
      using assms rd by (simp add: underground_input_def)
    from a show ?thesis
    proof (cases rule: attempt_move_cases)
      case same
      then show ?thesis by (simp add: grid_step_def)
    next
      case (hit k hp)
      then show ?thesis unfolding grid_step_def by (intro disjI2 disjI1) auto
    next
      case (destroy k hp)
      then show ?thesis unfolding grid_step_def by (intro disjI2) auto
    qed
  qed
qed

section \<open>Invariants of the grid\<close>

lemma grid_okD: "grid_ok g \<Longrightarrow> g p = Some (k, d) \<Longrightarrow> cell_ok (k, d)"
  unfolding grid_ok_def by blast

lemma grid_ok_upd: "grid_ok g \<Longrightarrow> cell_ok (k, d) \<Longrightarrow> grid_ok (g(p \<mapsto> (k, d)))"
  unfolding grid_ok_def by (auto split: if_splits)

lemma cell_ok_hit:
  assumes "cell_ok (k, hp)" and "k \<noteq> EMPTY" and "1 < hp"
  shows "cell_ok (k, hp - 1)"
  using assms by (auto simp: cell_ok_def)

lemma cell_ok_last_hit:
  assumes "cell_ok (k, hp)" and "k \<noteq> EMPTY" and "hp \<le> 1"
  shows "hp = 1" and "cell_ok (EMPTY, hp - 1)"
proof -
  have "hp \<noteq> 0" "0 \<le> hp" using assms(1,2) by (auto simp: cell_ok_def)
  then show "hp = 1" using assms(3) by simp
  then show "cell_ok (EMPTY, hp - 1)"
    by (simp add: cell_ok_def max_durability_def dict_get_def DURABILITY_def)
qed

lemma grid_step_ok:
  assumes "grid_step w w'" and "grid_ok (grid (terrain w))"
  shows "grid_ok (grid (terrain w'))"
  using assms(1) unfolding grid_step_def
proof (elim disjE exE conjE)
  assume "terrain w' = terrain w"
  then show ?thesis using assms(2) by simp
next
  fix p k hp
  assume c: "grid (terrain w) p = Some (k, hp)" "k \<noteq> EMPTY" "1 < hp"
    and t: "terrain w' = (terrain w)\<lparr>grid := (grid (terrain w))(p \<mapsto> (k, hp - 1))\<rparr>"
  have "cell_ok (k, hp - 1)" using grid_okD [OF assms(2) c(1)] c(2,3) by (rule cell_ok_hit)
  then show ?thesis using t assms(2) by (simp add: grid_ok_upd)
next
  fix p k hp
  assume c: "grid (terrain w) p = Some (k, hp)" "k \<noteq> EMPTY" "hp \<le> 1"
    and t: "terrain w' = (terrain w)\<lparr>grid := (grid (terrain w))(p \<mapsto> (EMPTY, hp - 1))\<rparr>"
  have "cell_ok (EMPTY, hp - 1)" using grid_okD [OF assms(2) c(1)] c(2,3) by (rule cell_ok_last_hit)
  then show ?thesis using t assms(2) by (simp add: grid_ok_upd)
qed

lemma grid_step_emptied:
  assumes "grid_step w w'" and "grid_ok (grid (terrain w))"
    and "grid (terrain w) p = Some (k, d)" and "k \<noteq> EMPTY"
    and "grid (terrain w') p = Some (EMPTY, d')"
  shows "d = 1 \<and> d' = 0 \<and> p = (grid_x (ug_mole w'), grid_y (ug_mole w'))"
  using assms(1) unfolding grid_step_def
proof (elim disjE exE conjE)
  assume "terrain w' = terrain w"
  then show ?thesis using assms(3,4,5) by simp
next
  fix q k' hp
  assume c: "grid (terrain w) q = Some (k', hp)" "k' \<noteq> EMPTY" "1 < hp"
    and t: "terrain w' = (terrain w)\<lparr>grid := (grid (terrain w))(q \<mapsto> (k', hp - 1))\<rparr>"
  show ?thesis using assms(3,4,5) c t by (cases "p = q") auto
next
  fix q k' hp
  assume c: "grid (terrain w) q = Some (k', hp)" "k' \<noteq> EMPTY" "hp \<le> 1"
    and t: "terrain w' = (terrain w)\<lparr>grid := (grid (terrain w))(q \<mapsto> (EMPTY, hp - 1))\<rparr>"
    and q: "q = (grid_x (ug_mole w'), grid_y (ug_mole w'))"
  have hp: "hp = 1" using grid_okD [OF assms(2) c(1)] c(2,3) by (rule cell_ok_last_hit)
  show ?thesis
  proof (cases "p = q")
    case True
    then show ?thesis using assms(3,5) c(1) t hp q by simp
  next
    case False
    then show ?thesis using assms(3,4,5) t by simp
  qed
qed

lemma grid_step_wf:
  assumes "grid_step w w'" and "terrain_wf (terrain w)"
  shows "terrain_wf (terrain w')"
  using assms(1) unfolding grid_step_def
proof (elim disjE exE conjE)
  assume "terrain w' = terrain w"
  then show ?thesis using assms(2) by simp
next
  fix p k hp
  assume c: "grid (terrain w) p = Some (k, hp)"
    and t: "terrain w' = (terrain w)\<lparr>grid := (grid (terrain w))(p \<mapsto> (k, hp - 1))\<rparr>"
  have "dom (grid (terrain w')) = dom (grid (terrain w))" using c t by auto
  then show ?thesis using assms(2) t by (simp add: terrain_wf_def)
next
  fix p k hp
  assume c: "grid (terrain w) p = Some (k, hp)"
    and t: "terrain w' = (terrain w)\<lparr>grid := (grid (terrain w))(p \<mapsto> (EMPTY, hp - 1))\<rparr>"
  have "dom (grid (terrain w')) = dom (grid (terrain w))" using c t by auto
  then show ?thesis using assms(2) t by (simp add: terrain_wf_def)
qed

lemma grid_step_rock:
  assumes "grid_step w w'" and "grid (terrain w) p = Some (ROCK, d)"
  shows "grid (terrain w') p = Some (ROCK, d)"
  using assms(1) unfolding grid_step_def
proof (elim disjE exE conjE)
  assume "terrain w' = terrain w"
  then show ?thesis using assms(2) by simp
next
  fix q k hp
  assume c: "grid (terrain w) q = Some (k, hp)" "k \<noteq> ROCK"
    and t: "terrain w' = (terrain w)\<lparr>grid := (grid (terrain w))(q \<mapsto> (k, hp - 1))\<rparr>"
  have "p \<noteq> q" using c assms(2) by auto
  then show ?thesis using assms(2) t by simp
next
  fix q k hp
  assume c: "grid (terrain w) q = Some (k, hp)" "k \<noteq> ROCK"
    and t: "terrain w' = (terrain w)\<lparr>grid := (grid (terrain w))(q \<mapsto> (EMPTY, hp - 1))\<rparr>"
  have "p \<noteq> q" using c assms(2) by auto
  then show ?thesis using assms(2) t by simp
qed

lemma underground_follow_result:
  "\<exists>t' r'. ensure_generated
              (\<lfloor>(camera_follow (grid_y (ug_mole w)) (camera_y w) + real_of_int HEIGHT)
                   / real_of_int TILE_SIZE\<rfloor> + 10) (terrain w) (rng w) = Inr (t', r')
     \<and> underground_follow dt w =
          Inr (w\<lparr>ug_mole := process_animation dt (ug_mole w),
                 camera_y := camera_follow (grid_y (ug_mole w)) (camera_y w),
                 terrain := t', rng := r'\<rparr>)"
proof -
  let ?tgt = "\<lfloor>(camera_follow (grid_y (ug_mole w)) (camera_y w) + real_of_int HEIGHT)
                   / real_of_int TILE_SIZE\<rfloor> + 10"
  obtain t' r' where "ensure_generated ?tgt (terrain w) (rng w) = Inr (t', r')"
    using ensure_generated_cells [of ?tgt "terrain w" "rng w"] by blast
  then show ?thesis
    by (simp add: underground_follow_def Let_def process_animation_mole)
qed

lemma underground_update_split:
  assumes "underground_update dt ks w = Inr w'"
  obtains w2 tgt r' where "underground_input dt ks w = Inr w2"
    "ensure_generated tgt (terrain w2) (rng w2) = Inr (terrain w', r')"
    "ug_mole w' = process_animation dt (ug_mole w2)"
    "session w' = session w2" "particle_pool w' = particle_pool w2"
proof -
  obtain w2 where w2: "underground_input dt ks w = Inr w2" "underground_follow dt w2 = Inr w'"
    using assms by (auto simp: underground_update_def split: sum.splits)
  from underground_follow_result [of w2 dt] w2(2)
  obtain t' r' where "ensure_generated
              (\<lfloor>(camera_follow (grid_y (ug_mole w2)) (camera_y w2) + real_of_int HEIGHT)
                   / real_of_int TILE_SIZE\<rfloor> + 10) (terrain w2) (rng w2) = Inr (t', r')"
    "w' = w2\<lparr>ug_mole := process_animation dt (ug_mole w2),
                 camera_y := camera_follow (grid_y (ug_mole w2)) (camera_y w2),
                 terrain := t', rng := r'\<rparr>"
    by auto
  then show thesis using w2(1) by (intro that [of w2 _ r']) simp_all
qed

lemma mine_init_result:
  "\<exists>t r1. ensure_generated (ROWS + 5) Terrain_init r = Inr (t, r1)
     \<and> grid_ok (grid t)
     \<and> mine_init r =
         Inr \<lparr>terrain = t\<lparr>grid := (grid t)((COLS div 2, 5) \<mapsto> (EMPTY, 0))\<rparr>,
              ug_mole = GridMole_init (COLS div 2) 5, session = GameSession_init,
              particle_pool = ParticlePool_init 256, camera_y = 0, rng = r1\<rparr>"
proof -
  obtain t r1 where e: "ensure_generated (ROWS + 5) Terrain_init r = Inr (t, r1)"
    using ensure_generated_cells [of "ROWS + 5" Terrain_init r] by blast
  have "grid_ok (grid Terrain_init)" by (simp add: grid_ok_def Terrain_init_def)
  with e have "grid_ok (grid t)" by (rule ensure_generated_grid_ok)
  then show ?thesis using e by (simp add: mine_init_def Let_def GridMole_init_def)
qed

lemma generate_rows_shaft:
  assumes "generate_rows ys t r = Inr (t', r')" and "distinct ys" and "y \<in> set ys"
    and "y < 10" and "(0, y) \<notin> dom (grid t)" and "0 \<le> x" and "x < COLS"
  shows "grid t' (x, y) = Some (DIRT, 1)"
  using assms
proof (induction ys arbitrary: t r)
  case Nil
  then show ?case by simp
next
  case (Cons z zs)
  obtain t1 r1 where 1: "generate_row z t r = Inr (t1, r1)"
    "\<forall>p. if snd p = z \<and> 0 \<le> fst p \<and> fst p < COLS \<and> (0, z) \<notin> dom (grid t)
             then fresh_cell (grid t1 p) else grid t1 p = grid t p"
    using generate_row_cells [of z t r] by blast
  have rest: "generate_rows zs t1 r1 = Inr (t', r')" using Cons.prems(1) 1(1) by simp
  show ?case
  proof (cases "z = y")
    case True
    have "t1 = t\<lparr>grid := (\<lambda>p. if snd p = y \<and> fst p \<in> set [0 .. COLS - 1] then Some (DIRT, 1)
                             else grid t p)\<rparr>"
      using 1(1) Cons.prems(4,5) True by (simp add: generate_row_shallow)
    then have "grid t1 (x, y) = Some (DIRT, 1)"
      using Cons.prems(6,7) by simp
    moreover have "y \<notin> set zs" using Cons.prems(2) True by simp
    moreover have "grid t' (x, y) = grid t1 (x, y) \<or> (snd (x, y) \<in> set zs \<and> fresh_cell (grid t' (x, y)))"
      using generate_rows_cells [of zs t1 r1] rest by auto
    ultimately show ?thesis by simp
  next
    case False
    have "grid t1 (0, y) = grid t (0, y)" using 1(2) [rule_format, of "(0, y)"] False by simp
    then have "(0, y) \<notin> dom (grid t1)" using Cons.prems(5) by (simp add: dom_def)
    moreover have "y \<in> set zs" "distinct zs" using Cons.prems(2,3) False by auto
    ultimately show ?thesis using rest Cons.prems(4,6,7) by (intro Cons.IH [of t1 r1]) simp_all
  qed
qed

lemma cell_ok_empty: "cell_ok (EMPTY, 0)"
  by (simp add: cell_ok_def max_durability_def dict_get_def DURABILITY_def)

section \<open>Rock\<close>

lemma underground_update_rock:
  assumes "underground_update dt ks w = Inr w'" and "terrain_wf (terrain w)"
  shows "terrain_wf (terrain w')
         \<and> (grid (terrain w) p = Some (ROCK, d) \<longrightarrow> grid (terrain w') p = Some (ROCK, d))"
proof -
  from assms(1) obtain w2 tgt r' where s: "underground_input dt ks w = Inr w2"
    "ensure_generated tgt (terrain w2) (rng w2) = Inr (terrain w', r')"
    by (auto elim: underground_update_split)
  have st: "grid_step w w2" using s(1) by (rule underground_input_grid_step)
  have wf2: "terrain_wf (terrain w2)" using st assms(2) by (rule grid_step_wf)
  note e = ensure_generated_wf [OF s(2) wf2]
  have "grid (terrain w') p = Some (ROCK, d)" if r: "grid (terrain w) p = Some (ROCK, d)"
  proof -
    have r2: "grid (terrain w2) p = Some (ROCK, d)" using st r by (rule grid_step_rock)
    then have "p \<in> dom (grid (terrain w2))" by auto
    then have "grid (terrain w') p = grid (terrain w2) p" using e by blast
    then show ?thesis using r2 by simp
  qed
  then show ?thesis using e by blast
qed

lemma run_frames_rock:
  assumes "run_frames frames w = Inr w'" and "terrain_wf (terrain w)"
    and "grid (terrain w) p = Some (ROCK, d)"
  shows "grid (terrain w') p = Some (ROCK, d)"
  using assms
proof (induction frames arbitrary: w)
  case Nil
  then show ?case by simp
next
  case (Cons f frames)
  obtain dt ks where f: "f = (dt, ks)" by (cases f)
  from Cons.prems(1) obtain w1 where w1: "underground_update dt ks w = Inr w1"
    "run_frames frames w1 = Inr w'"
    by (auto simp: f split: sum.splits)
  from underground_update_rock [OF w1(1) Cons.prems(2), of p d] Cons.prems(3)
  have "terrain_wf (terrain w1)" "grid (terrain w1) p = Some (ROCK, d)" by simp_all
  with w1(2) show ?case by (intro Cons.IH [of w1]) simp_all
qed

lemma attempts_rock:
  assumes "grid (terrain w) (grid_x (ug_mole w) + dx, grid_y (ug_mole w) + dy) = Some (ROCK, d)"
  shows "\<exists>w'. attempts n dx dy w = Inr w' \<and> terrain w' = terrain w \<and> session w' = session w
           \<and> particle_pool w' = particle_pool w
           \<and> grid_x (ug_mole w') = grid_x (ug_mole w) \<and> grid_y (ug_mole w') = grid_y (ug_mole w)"
  using assms
proof (induction n arbitrary: w)
  case 0
  show ?case by simp
next
  case (Suc n)
  let ?w1 = "w\<lparr>ug_mole := (ug_mole w)\<lparr>state := IDLE\<rparr>\<rparr>"
  have step: "attempt_move dx dy w = Inr ?w1" using Suc.prems by (rule attempt_move_rock)
  have "\<exists>w'. attempts n dx dy ?w1 = Inr w' \<and> terrain w' = terrain ?w1 \<and> session w' = session ?w1
           \<and> particle_pool w' = particle_pool ?w1
           \<and> grid_x (ug_mole w') = grid_x (ug_mole ?w1) \<and> grid_y (ug_mole w') = grid_y (ug_mole ?w1)"
    using Suc.prems by (intro Suc.IH) simp
  then show ?case using step by simp
qed

lemma frame_into_rock:
  assumes "read_direction ks ((ug_mole w)\<lparr>can_move_timer := can_move_timer (ug_mole w) - dt\<rparr>)
             = (dx, dy, m)"
    and "dx \<noteq> 0 \<or> dy \<noteq> 0"
    and "grid (terrain w) (grid_x (ug_mole w) + dx, grid_y (ug_mole w) + dy) = Some (ROCK, d)"
  shows "\<exists>w'. underground_update dt ks w = Inr w'
           \<and> grid_x (ug_mole w') = grid_x (ug_mole w) \<and> grid_y (ug_mole w') = grid_y (ug_mole w)
           \<and> state (ug_mole w') = IDLE \<and> session w' = session w
           \<and> particle_pool w' = particle_pool w"
proof -
  have pos: "grid_x m = grid_x (ug_mole w)" "grid_y m = grid_y (ug_mole w)"
    using read_direction_mole [OF assms(1)] by simp_all
  let ?w1 = "w\<lparr>ug_mole := m\<rparr>"
  let ?w2 = "?w1\<lparr>ug_mole := (ug_mole ?w1)\<lparr>state := IDLE\<rparr>\<rparr>"
  have "attempt_move dx dy ?w1 = Inr ?w2"
    by (rule attempt_move_rock [of ?w1 dx dy d]) (simp add: pos assms(3))
  then have inp: "underground_input dt ks w = Inr ?w2"
    using assms(1,2) by (simp add: underground_input_def)
  obtain w' where w': "underground_follow dt ?w2 = Inr w'"
    "ug_mole w' = process_animation dt (ug_mole ?w2)" "session w' = session ?w2"
    "particle_pool w' = particle_pool ?w2"
    using underground_follow_result [of ?w2 dt] by auto
  have "underground_update dt ks w = Inr w'"
    using inp w'(1) by (simp add: underground_update_def)
  then show ?thesis using w'(2,3,4) pos by (auto simp: process_animation_mole)
qed

section \<open>The camera recurrence and the pool as a whole\<close>

lemma camera_error_step:
  "camera_target gy - camera_follow gy c = (9 / 10) * (camera_target gy - c)"
  by (simp add: camera_follow_def field_simps)

lemma camera_error_closed:
  "camera_target gy - (camera_follow gy ^^ n) cam = (9 / 10) ^ n * (camera_target gy - cam)"
proof (induction n)
  case 0
  show ?case by simp
next
  case (Suc n)
  have "camera_target gy - (camera_follow gy ^^ Suc n) cam
          = (9 / 10) * (camera_target gy - (camera_follow gy ^^ n) cam)"
    by (simp add: camera_error_step)
  then show ?case using Suc.IH by simp
qed

lemma camera_limit: "(\<lambda>n. (camera_follow gy ^^ n) cam) \<longlonglongrightarrow> camera_target gy"
proof -
  have p: "(\<lambda>n. (9 / 10 :: real) ^ n) \<longlonglongrightarrow> 0"
    by (rule LIMSEQ_realpow_zero) simp_all
  have "(\<lambda>n. (9 / 10) ^ n * (camera_target gy - cam)) \<longlonglongrightarrow> 0 * (camera_target gy - cam)"
    using p by (rule tendsto_mult_right)
  then have "(\<lambda>n. camera_target gy - (9 / 10) ^ n * (camera_target gy - cam))
               \<longlonglongrightarrow> camera_target gy - 0 * (camera_target gy - cam)"
    by (intro tendsto_diff tendsto_const)
  moreover have "(\<lambda>n. (camera_follow gy ^^ n) cam)
                   = (\<lambda>n. camera_target gy - (9 / 10) ^ n * (camera_target gy - cam))"
  proof
    fix n
    show "(camera_follow gy ^^ n) cam = camera_target gy - (9 / 10) ^ n * (camera_target gy - cam)"
      using camera_error_closed [of gy n cam] by simp
  qed
  ultimately show ?thesis by simp
qed

lemma emit_claims_min:
  assumes "1 \<le> n" and "unit_draws r"
  shows "length (fst (emit x y c n r pool)) = length pool
         \<and> active_count (fst (emit x y c n r pool)) = active_count pool + min (nat n) (free_count pool)
         \<and> active_count (fst (emit x y c n r pool)) \<le> length pool
         \<and> list_all2 (\<lambda>p q. q = p \<or> (\<not> active p \<and> claimed x y c q)) pool (fst (emit x y c n r pool))"
proof -
  have "nat (max 1 (n - 0)) = nat n" using assms(1) by simp
  moreover have "active_count (fst (emit x y c n r pool)) \<le> length (fst (emit x y c n r pool))"
    by (simp add: active_count_def)
  ultimately show ?thesis
    using emit_loop_slots [OF assms(2), of x y c pool n 0]
    by (simp add: emit_def emit_loop_length emit_loop_active_count)
qed

lemma update_and_draw_pool:
  "length (update_and_draw pool) = length pool \<and> active_count (update_and_draw pool) \<le> active_count pool"
proof -
  have "\<And>p. active (update_particle p) \<Longrightarrow> active p"
    by (simp add: update_particle_def Let_def split: if_splits)
  then have "length (filter (\<lambda>p. active (update_particle p)) pool) \<le> length (filter active pool)"
    by (induction pool) auto
  then show ?thesis by (simp add: update_and_draw_def active_count_def filter_map comp_def)
qed

section \<open>Generation stays ahead of the mole\<close>


















section \<open>Dig cooldown\<close>

text \<open>
  Claim C6. The dig cooldown \<open>max(50, 250 - shovel_level * 20)\<close> is monotonically
  non-increasing in the shovel level, for every shovel level from 1 on, and it is never
  below the minimum of 50.
\<close>

theorem dig_cooldown_monotone_floored:
  "1 \<le> a \<Longrightarrow> a \<le> b \<Longrightarrow>
     dig_cooldown b \<le> dig_cooldown a \<and> 50 \<le> dig_cooldown a \<and> 50 \<le> dig_cooldown b"
  by (simp add: dig_cooldown_def max_def)

theorem dig_cooldown_monotone_floored_witness:
  "(1::int) \<le> 1 \<and> (1::int) \<le> 11 \<and> dig_cooldown 11 \<le> dig_cooldown 1
     \<and> dig_cooldown 1 = 230 \<and> dig_cooldown 11 = 50"
  using dig_cooldown_monotone_floored [of 1 11] by (simp add: dig_cooldown_def)

section \<open>The safe shaft\<close>

text \<open>
  Claim C9. For every depth \<open>d < 10\<close>, generating the row at depth \<open>d\<close> makes every cell
  of that row Dirt with full durability (\<^verbatim>\<open>DURABILITY[DIRT]\<close>, which is 1), and no randomness
  is involved: the result is the same for every state of the generator, and the generator
  is handed back as it was. Every cell the call writes is such a Dirt cell of row \<open>d\<close>; the
  whole row is written when the row is not there yet (\<^verbatim>\<open>generate_row\<close> returns at once when
  the key \<open>(0, d)\<close> is in the grid).
\<close>

theorem safe_shaft_rows_dirt:
  assumes "d < 10"
  shows "\<exists>t'. (\<forall>r. generate_row d t r = Inr (t', r))
            \<and> (\<forall>p. grid t' p \<noteq> grid t p \<longrightarrow> grid t' p = Some (DIRT, 1) \<and> snd p = d)
            \<and> ((0, d) \<notin> dom (grid t) \<longrightarrow>
                 (\<forall>x. 0 \<le> x \<and> x < COLS \<longrightarrow> grid t' (x, d) = Some (DIRT, 1)))
            \<and> getitem DURABILITY DIRT = Inr 1"
proof (cases "(0, d) \<in> dom (grid t)")
  case True
  have "\<forall>r. generate_row d t r = Inr (t, r)"
    using True by (simp add: generate_row_def)
  then show ?thesis using True getitem_DURABILITY_DIRT by blast
next
  case False
  let ?t' = "t\<lparr>grid := (\<lambda>p. if snd p = d \<and> fst p \<in> set [0 .. COLS - 1] then Some (DIRT, 1)
                             else grid t p)\<rparr>"
  have a: "\<forall>r. generate_row d t r = Inr (?t', r)"
    using False assms by (simp add: generate_row_shallow)
  have b: "\<forall>p. grid ?t' p \<noteq> grid t p \<longrightarrow> grid ?t' p = Some (DIRT, 1) \<and> snd p = d"
    by simp
  have c: "\<forall>x. 0 \<le> x \<and> x < COLS \<longrightarrow> grid ?t' (x, d) = Some (DIRT, 1)"
    by simp
  show ?thesis using a b c getitem_DURABILITY_DIRT by blast
qed

theorem safe_shaft_rows_dirt_witness:
  "(3::int) < 10 \<and> (0, 3) \<notin> dom (grid Terrain_init) \<and> (0 \<le> (7::int) \<and> 7 < COLS)
     \<and> (\<exists>t'. generate_row 3 Terrain_init (sconst 0) = Inr (t', sconst 0)
              \<and> grid t' (7, 3) = Some (DIRT, 1))"
proof -
  have h: "(3::int) < 10" by simp
  have k: "(0, 3) \<notin> dom (grid Terrain_init)" by (simp add: Terrain_init_def)
  have c: "0 \<le> (7::int) \<and> 7 < COLS" by (simp add: COLS_def WIDTH_def TILE_SIZE_def)
  from safe_shaft_rows_dirt [OF h, of Terrain_init] k c h show ?thesis by blast
qed

section \<open>Depth-scaled sampling weights\<close>

text \<open>
  Claim C2, as the code has it. The weights are listed in the order of \<open>choices\<close>: Dirt,
  Rock, Bronze, Silver, Gold, Diamond. A row with effective depth 0 (depth at most 20)
  has the unscaled weights 71, 10, 8, 4, 1, 1: this is the baseline of row 0. For a row
  with effective depth \<open>e = max 0 (y - 20) > 0\<close> the Rock, Bronze and Silver weights are
  recomputed as \<open>max 5 (10 + e * 0.05)\<close>, \<open>max 1 (15 - e * 0.1)\<close> and \<open>max 1 (8 - e * 0.05)\<close>,
  the Gold and Diamond weights as \<open>3 + e * 0.15\<close> and \<open>1 + e * 0.1\<close> without a floor, and
  Dirt is the remainder to 100, floored at 10. Among these rows the Bronze and Silver
  weights do not grow with depth, and shrink strictly between rows above row 160, where
  they reach their floor; the Gold and Diamond weights grow strictly with depth and
  exceed their baseline 1 of row 0. Nothing is stated here about the direction of the Rock weight, nor
  about the Rock, Bronze and Silver weights against the baseline of row 0.
\<close>

theorem row_weights_scaled_rows:
  assumes "y0 \<le> 20" and "20 < y" and "y \<le> y'"
  shows "\<exists>ws0 ws ws'. row_weights y0 = Inr ws0 \<and> ws0 = [71, 10, 8, 4, 1, 1]
           \<and> row_weights y = Inr ws \<and> row_weights y' = Inr ws'
           \<and> length ws = length choices
           \<and> ws ! 1 = max 5 (10 + real_of_int (max 0 (y - 20)) * (5 / 100))
           \<and> ws ! 2 = max 1 (15 + real_of_int (max 0 (y - 20)) * (- (1 / 10)))
           \<and> ws ! 3 = max 1 (8 + real_of_int (max 0 (y - 20)) * (- (5 / 100)))
           \<and> ws ! 4 = 3 + real_of_int (max 0 (y - 20)) * (15 / 100)
           \<and> ws ! 5 = 1 + real_of_int (max 0 (y - 20)) * (1 / 10)
           \<and> ws ! 0 = max 10 (100 - sum_list (drop 1 ws))
           \<and> ws' ! 2 \<le> ws ! 2 \<and> ws' ! 3 \<le> ws ! 3
           \<and> ws ! 4 \<le> ws' ! 4 \<and> ws ! 5 \<le> ws' ! 5
           \<and> (y < y' \<longrightarrow> ws ! 4 < ws' ! 4 \<and> ws ! 5 < ws' ! 5)
           \<and> (y < y' \<and> y' < 160 \<longrightarrow> ws' ! 2 < ws ! 2 \<and> ws' ! 3 < ws ! 3)
           \<and> ws0 ! 4 < ws ! 4 \<and> ws0 ! 5 < ws ! 5"
proof -
  define e where "e = real_of_int (y - 20)"
  define e' where "e' = real_of_int (y' - 20)"
  have e: "0 < e" "e \<le> e'" using assms by (simp_all add: e_def e'_def)
  have strict: "y < y' \<Longrightarrow> e < e'" by (simp add: e_def e'_def)
  have floor: "y' < 160 \<Longrightarrow> e' < 140" by (simp add: e'_def)
  have m: "max 0 (y - 20) = y - 20" using assms by simp
  have y': "20 < y'" using assms by simp
  show ?thesis
    unfolding row_weights_shallow [OF assms(1)] row_weights_deep [OF assms(2)]
      row_weights_deep [OF y'] m
    unfolding e_def [symmetric] e'_def [symmetric]
    using e strict floor by (auto simp: choices_def max_def)
qed

theorem row_weights_scaled_rows_witness:
  "(0::int) \<le> 20 \<and> (20::int) < 25 \<and> (25::int) \<le> 40 \<and> (25::int) < 40 \<and> (40::int) < 160
     \<and> row_weights 0 = Inr [71, 10, 8, 4, 1, 1]
     \<and> row_weights 25 = Inr [249 / 4, 41 / 4, 29 / 2, 31 / 4, 15 / 4, 3 / 2]
     \<and> row_weights 40 = Inr [60, 11, 13, 7, 6, 3]"
proof -
  have a: "row_weights 25 = Inr [249 / 4, 41 / 4, 29 / 2, 31 / 4, 15 / 4, 3 / 2]"
    by (simp add: row_weights_deep)
  have b: "row_weights 40 = Inr [60, 11, 13, 7, 6, 3]"
    by (simp add: row_weights_deep)
  from row_weights_scaled_rows [of 0 25 40] a b show ?thesis by simp
qed

text \<open>
  The claim as the specification words it fails in three places. In row 25 the Rock
  weight is 10.25 and the Bronze weight is 14.5, above their weights 10 and 8 in the
  unscaled list of row 0; and the Rock weight does not decay, 10.3 in row 26 against
  10.25 in row 25, because the scale configured for Rock is \<open>+0.05\<close>. The bases of
  \<^verbatim>\<open>ORE_CONFIG\<close> differ from the unscaled list, so the weights jump between rows 20 and
  21: Bronze from 8 to 14.9, Silver from 4 to 7.95, Gold from 1 to 3.15.
\<close>

theorem rock_bronze_weights_row_25_counterexample:
  "row_weights 0 = Inr [71, 10, 8, 4, 1, 1]
     \<and> row_weights 25 = Inr [249 / 4, 41 / 4, 29 / 2, 31 / 4, 15 / 4, 3 / 2]
     \<and> \<not> ([249 / 4, 41 / 4, 29 / 2, 31 / 4, 15 / 4, 3 / 2 :: real] ! 1 \<le> [71, 10, 8, 4, 1, 1] ! 1)
     \<and> \<not> ([249 / 4, 41 / 4, 29 / 2, 31 / 4, 15 / 4, 3 / 2 :: real] ! 2 \<le> [71, 10, 8, 4, 1, 1] ! 2)
     \<and> row_weights 26 = Inr [621 / 10, 103 / 10, 72 / 5, 77 / 10, 39 / 10, 8 / 5]
     \<and> \<not> ([621 / 10, 103 / 10, 72 / 5, 77 / 10, 39 / 10, 8 / 5 :: real] ! 1
            \<le> [249 / 4, 41 / 4, 29 / 2, 31 / 4, 15 / 4, 3 / 2] ! 1)
     \<and> map_option scale (ORE_CONFIG ''ROCK'') = Some (5 / 100)
     \<and> \<not> (5 / 100 < (0::real))
     \<and> row_weights 20 = Inr [71, 10, 8, 4, 1, 1]
     \<and> row_weights 21 = Inr [1257 / 20, 201 / 20, 149 / 10, 159 / 20, 63 / 20, 11 / 10]"
  by (simp add: row_weights_deep row_weights_shallow ORE_CONFIG_def)

section \<open>Mining a tile down\<close>

text \<open>
  Claim C1, as the code has it. A hit is one move attempt towards the cell (the body of
  \<^verbatim>\<open>if dx != 0 or dy != 0\<close>); it takes 1 from the durability. For a cell in the columns
  of the mine whose kind is neither Rock nor Empty and whose durability is \<open>k \<ge> 1\<close>,
  exactly \<open>k\<close> hits are needed: after \<open>j < k\<close> hits the cell still has its kind, with
  durability \<open>k - j\<close>, the inventory and the particle pool are as before and the mole has
  not moved; the \<open>k\<close>-th hit makes the cell Empty with durability 0, moves the mole into
  it and emits particles in the colour of the kind the cell had. With the inventory of
  the game (slots for Bronze, Silver, Gold and Diamond), that hit adds exactly one to
  the slot of that kind when the kind is one of the four ores, and leaves the inventory
  as it was when the kind is Dirt.
\<close>

theorem mining_hits_until_destroyed:
  assumes "grid (terrain w) (tx, ty) = Some (kind, k)"
    and "kind \<noteq> EMPTY" and "kind \<noteq> ROCK" and "1 \<le> k"
    and "tx = grid_x (ug_mole w) + dx" and "ty = grid_y (ug_mole w) + dy"
    and "0 \<le> tx" and "tx < COLS" and "0 \<le> ty"
    and "dom (inventory (session w)) = {BRONZE, SILVER, GOLD, DIAMOND}"
  shows "(\<forall>j. j < nat k \<longrightarrow>
            (\<exists>w'. attempts j dx dy w = Inr w'
                 \<and> grid (terrain w') (tx, ty) = Some (kind, k - int j)
                 \<and> inventory (session w') = inventory (session w)
                 \<and> particle_pool w' = particle_pool w
                 \<and> grid_x (ug_mole w') = grid_x (ug_mole w)
                 \<and> grid_y (ug_mole w') = grid_y (ug_mole w)))
       \<and> (\<exists>w'. attempts (nat k) dx dy w = Inr w'
                 \<and> grid (terrain w') (tx, ty) = Some (EMPTY, 0)
                 \<and> grid_x (ug_mole w') = tx \<and> grid_y (ug_mole w') = ty
                 \<and> particle_pool w' =
                     fst (emit (real_of_int (tx * TILE_SIZE + 16)) (real_of_int (ty * TILE_SIZE + 16))
                            (TILE_COLORS kind) 8 (rng w) (particle_pool w))
                 \<and> inventory (session w') =
                     (if kind = DIRT then inventory (session w)
                      else (inventory (session w))(kind \<mapsto> the (inventory (session w) kind) + 1)))"
proof (intro conjI allI impI)
  fix j assume j: "j < nat k"
  have "int j < k" using j by simp
  from attempts_partial [OF assms(1) [unfolded assms(5,6)] assms(2,3)
        assms(7,8,9) [unfolded assms(5,6)] this]
  show "\<exists>w'. attempts j dx dy w = Inr w'
                 \<and> grid (terrain w') (tx, ty) = Some (kind, k - int j)
                 \<and> inventory (session w') = inventory (session w)
                 \<and> particle_pool w' = particle_pool w
                 \<and> grid_x (ug_mole w') = grid_x (ug_mole w)
                 \<and> grid_y (ug_mole w') = grid_y (ug_mole w)"
    unfolding assms(5,6) by auto
next
  obtain n where n: "nat k = Suc n" using assms(4) by (cases "nat k") auto
  then have k: "k = int (Suc n)" using assms(4) by linarith
  have credit: "credit_ore kind (inventory (session w)) =
      (if kind = DIRT then inventory (session w)
       else (inventory (session w))(kind \<mapsto> the (inventory (session w) kind) + 1))"
  proof (cases "kind = DIRT")
    case True
    then have "inventory (session w) kind = None" using assms(10) by (auto simp: dom_def)
    then show ?thesis using True by (simp add: credit_ore_no_slot)
  next
    case False
    then have "kind \<in> dom (inventory (session w))"
      using assms(2,3,10) by (cases kind) auto
    then obtain m where "inventory (session w) kind = Some m" by auto
    then show ?thesis using False by (simp add: credit_ore_slot)
  qed
  from attempts_destroy [OF assms(1) [unfolded assms(5,6) k] assms(2,3)
        assms(7,8,9) [unfolded assms(5,6)]]
  show "\<exists>w'. attempts (nat k) dx dy w = Inr w'
                 \<and> grid (terrain w') (tx, ty) = Some (EMPTY, 0)
                 \<and> grid_x (ug_mole w') = tx \<and> grid_y (ug_mole w') = ty
                 \<and> particle_pool w' =
                     fst (emit (real_of_int (tx * TILE_SIZE + 16)) (real_of_int (ty * TILE_SIZE + 16))
                            (TILE_COLORS kind) 8 (rng w) (particle_pool w))
                 \<and> inventory (session w') =
                     (if kind = DIRT then inventory (session w)
                      else (inventory (session w))(kind \<mapsto> the (inventory (session w) kind) + 1))"
    unfolding assms(5,6) n credit by auto
qed

theorem mining_hits_until_destroyed_witness:
  "(\<exists>w'. attempts 2 0 1 (mine_with [(10, 6) \<mapsto> (BRONZE, 3)]) = Inr w'
         \<and> grid (terrain w') (10, 6) = Some (BRONZE, 1)
         \<and> inventory (session w') BRONZE = Some 0)
   \<and> (\<exists>w'. attempts 3 0 1 (mine_with [(10, 6) \<mapsto> (BRONZE, 3)]) = Inr w'
         \<and> grid (terrain w') (10, 6) = Some (EMPTY, 0)
         \<and> grid_x (ug_mole w') = 10 \<and> grid_y (ug_mole w') = 6
         \<and> inventory (session w') = [BRONZE \<mapsto> 1, SILVER \<mapsto> 0, GOLD \<mapsto> 0, DIAMOND \<mapsto> 0])"
proof -
  let ?w = "mine_with [(10, 6) \<mapsto> (BRONZE, 3)]"
  have h: "grid (terrain ?w) (10, 6) = Some (BRONZE, 3)" "BRONZE \<noteq> EMPTY" "BRONZE \<noteq> ROCK"
    "(1::int) \<le> 3" "10 = grid_x (ug_mole ?w) + 0" "6 = grid_y (ug_mole ?w) + 1"
    "(0::int) \<le> 10" "10 < COLS" "(0::int) \<le> 6"
    "dom (inventory (session ?w)) = {BRONZE, SILVER, GOLD, DIAMOND}"
    by (auto simp: mine_with_fields COLS_eq)
  have two: "(2::nat) < nat 3" by simp
  have inv: "(inventory (session ?w))(BRONZE \<mapsto> the (inventory (session ?w) BRONZE) + 1)
     = [BRONZE \<mapsto> 1, SILVER \<mapsto> 0, GOLD \<mapsto> 0, DIAMOND \<mapsto> 0]"
    by (auto simp: mine_with_fields)
  note t = mining_hits_until_destroyed [OF h]
  from t [THEN conjunct1, rule_format, OF two] have a: "\<exists>w'. attempts 2 0 1 ?w = Inr w'
         \<and> grid (terrain w') (10, 6) = Some (BRONZE, 1)
         \<and> inventory (session w') BRONZE = Some 0"
    by (auto simp: mine_with_fields)
  have three: "nat 3 = 3" by simp
  from t [THEN conjunct2] have b: "\<exists>w'. attempts 3 0 1 ?w = Inr w'
         \<and> grid (terrain w') (10, 6) = Some (EMPTY, 0)
         \<and> grid_x (ug_mole w') = 10 \<and> grid_y (ug_mole w') = 6
         \<and> inventory (session w') = [BRONZE \<mapsto> 1, SILVER \<mapsto> 0, GOLD \<mapsto> 0, DIAMOND \<mapsto> 0]"
    unfolding three using inv by auto
  from a b show ?thesis by blast
qed

text \<open>
  The claim as the specification words it promises a credit for every destructible kind.
  A Dirt cell of durability 1 is destroyed by one hit and the inventory stays as it was:
  there is no slot for Dirt.
\<close>

theorem dirt_destroyed_without_credit_counterexample:
  "(case attempts 1 0 1 (mine_with [(10, 6) \<mapsto> (DIRT, 1)]) of
      Inl e \<Rightarrow> False
    | Inr w' \<Rightarrow> grid (terrain w') (10, 6) = Some (EMPTY, 0)
               \<and> inventory (session w') = inventory (session (mine_with [(10, 6) \<mapsto> (DIRT, 1)]))
               \<and> inventory (session w') DIRT = None)"
proof -
  let ?w = "mine_with [(10, 6) \<mapsto> (DIRT, 1)]"
  have "attempt_move 0 1 ?w = Inr (?w\<lparr>terrain := (terrain ?w)\<lparr>grid :=
                      (grid (terrain ?w))((grid_x (ug_mole ?w) + 0, grid_y (ug_mole ?w) + 1) \<mapsto> (EMPTY, 1 - 1))\<rparr>,
                  ug_mole := move_into (grid_x (ug_mole ?w) + 0) (grid_y (ug_mole ?w) + 1) 0 1 (ug_mole ?w),
                  session := (session ?w)\<lparr>inventory := credit_ore DIRT (inventory (session ?w))\<rparr>,
                  particle_pool := fst (emit (real_of_int ((grid_x (ug_mole ?w) + 0) * TILE_SIZE + 16))
                                             (real_of_int ((grid_y (ug_mole ?w) + 1) * TILE_SIZE + 16))
                                             (TILE_COLORS DIRT) 8 (rng ?w) (particle_pool ?w)),
                  rng := snd (emit (real_of_int ((grid_x (ug_mole ?w) + 0) * TILE_SIZE + 16))
                                             (real_of_int ((grid_y (ug_mole ?w) + 1) * TILE_SIZE + 16))
                                             (TILE_COLORS DIRT) 8 (rng ?w) (particle_pool ?w))\<rparr>)"
    by (rule attempt_move_destroy) (simp_all add: mine_with_fields COLS_eq)
  then show ?thesis
    by (simp add: mine_with_fields credit_ore_def)
qed

section \<open>Destroying a tile that has no inventory slot\<close>

text \<open>
  Claim C10. When the hit brings the durability of a tile to 0 and the kind of the tile
  has no slot in the inventory, the cell is still emptied, the mole moves into it and
  particles are emitted (the pool is the one \<^verbatim>\<open>emit\<close> returns, with \<open>min 8 F\<close> more active
  particles for \<open>F\<close> free slots), and the inventory is unchanged. The inventory of the game
  has no slot for Dirt, so destroying a Dirt tile never changes it.
\<close>

theorem destroy_without_inventory_slot:
  assumes "grid (terrain w) (tx, ty) = Some (kind, hp)"
    and "kind \<noteq> EMPTY" and "kind \<noteq> ROCK" and "hp \<le> 1"
    and "tx = grid_x (ug_mole w) + dx" and "ty = grid_y (ug_mole w) + dy"
    and "0 \<le> tx" and "tx < COLS" and "0 \<le> ty"
    and "inventory (session w) kind = None"
  shows "\<exists>w'. attempt_move dx dy w = Inr w'
            \<and> grid (terrain w') (tx, ty) = Some (EMPTY, hp - 1)
            \<and> grid_x (ug_mole w') = tx \<and> grid_y (ug_mole w') = ty
            \<and> particle_pool w' =
                 fst (emit (real_of_int (tx * TILE_SIZE + 16)) (real_of_int (ty * TILE_SIZE + 16))
                        (TILE_COLORS kind) 8 (rng w) (particle_pool w))
            \<and> active_count (particle_pool w') =
                 active_count (particle_pool w) + min 8 (free_count (particle_pool w))
            \<and> inventory (session w') = inventory (session w)"
proof -
  note step = attempt_move_destroy [OF assms(7,8,9) [unfolded assms(5,6)]
      assms(1) [unfolded assms(5,6)] assms(2,3,4)]
  show ?thesis
    unfolding assms(5,6) step
    using assms(10) by (simp add: move_into_def credit_ore_no_slot emit_def emit_loop_active_count)
qed

theorem destroy_without_inventory_slot_witness:
  "inventory (session (mine_with [(10, 6) \<mapsto> (DIRT, 1)])) DIRT = None
   \<and> (\<exists>w'. attempt_move 0 1 (mine_with [(10, 6) \<mapsto> (DIRT, 1)]) = Inr w'
         \<and> grid (terrain w') (10, 6) = Some (EMPTY, 0)
         \<and> grid_x (ug_mole w') = 10 \<and> grid_y (ug_mole w') = 6
         \<and> inventory (session w') = [BRONZE \<mapsto> 0, SILVER \<mapsto> 0, GOLD \<mapsto> 0, DIAMOND \<mapsto> 0])"
proof -
  let ?w = "mine_with [(10, 6) \<mapsto> (DIRT, 1)]"
  have h: "grid (terrain ?w) (10, 6) = Some (DIRT, 1)" "DIRT \<noteq> EMPTY" "DIRT \<noteq> ROCK"
    "(1::int) \<le> 1" "10 = grid_x (ug_mole ?w) + 0" "6 = grid_y (ug_mole ?w) + 1"
    "(0::int) \<le> 10" "10 < COLS" "(0::int) \<le> 6"
    "inventory (session ?w) DIRT = None"
    by (simp_all add: mine_with_fields COLS_eq)
  from destroy_without_inventory_slot [OF h] h(10) show ?thesis
    by (auto simp: mine_with_fields)
qed

section \<open>Terrain queries at cells that were never generated\<close>



section \<open>The invariant of a tile cell\<close>

text \<open>
  Claim C4, as the code has it. The mine that \<^verbatim>\<open>main\<close> sets up satisfies the invariant of
  the grid, and every frame of the underground pipeline that returns keeps it: in every
  cell the durability lies between 0 and \<^verbatim>\<open>DURABILITY.get(kind, 1)\<close>, and it is 0 exactly
  when the kind is Empty. Within a frame a cell that was not Empty turns Empty only
  through mining: its durability was 1, the hit of that frame brought it to 0, and the
  mole stands in the cell at the end of the frame. The one cell that is made Empty
  otherwise is the cell the mole starts in, which \<^verbatim>\<open>main\<close> assigns \<^verbatim>\<open>[EMPTY, 0]\<close> during
  the set-up. The particle update and the drawing do not write to the grid.
\<close>

theorem tile_cell_invariant:
  "(\<forall>r. \<exists>w. mine_init r = Inr w \<and> grid_ok (grid (terrain w)))
   \<and> (\<forall>dt ks w w'. grid_ok (grid (terrain w)) \<and> underground_update dt ks w = Inr w' \<longrightarrow>
         grid_ok (grid (terrain w'))
         \<and> (\<forall>p k d d'. grid (terrain w) p = Some (k, d) \<and> k \<noteq> EMPTY
                        \<and> grid (terrain w') p = Some (EMPTY, d') \<longrightarrow>
                d = 1 \<and> d' = 0 \<and> p = (grid_x (ug_mole w'), grid_y (ug_mole w'))))
   \<and> (\<forall>g p k d. grid_ok g \<and> g p = Some (k, d) \<longrightarrow>
         0 \<le> d \<and> d \<le> max_durability k \<and> (k = EMPTY \<longleftrightarrow> d = 0))"
proof -
  have init: "\<exists>w. mine_init r = Inr w \<and> grid_ok (grid (terrain w))" for r
  proof -
    obtain t r1 where t: "grid_ok (grid t)"
      "mine_init r =
         Inr \<lparr>terrain = t\<lparr>grid := (grid t)((COLS div 2, 5) \<mapsto> (EMPTY, 0))\<rparr>,
              ug_mole = GridMole_init (COLS div 2) 5, session = GameSession_init,
              particle_pool = ParticlePool_init 256, camera_y = 0, rng = r1\<rparr>"
      using mine_init_result [of r] by blast
    have "grid_ok ((grid t)((COLS div 2, 5) \<mapsto> (EMPTY, 0)))"
      using t(1) cell_ok_empty by (rule grid_ok_upd)
    then show ?thesis using t(2) by simp
  qed
  have frame: "grid_ok (grid (terrain w'))
         \<and> (\<forall>p k d d'. grid (terrain w) p = Some (k, d) \<and> k \<noteq> EMPTY
                        \<and> grid (terrain w') p = Some (EMPTY, d') \<longrightarrow>
                d = 1 \<and> d' = 0 \<and> p = (grid_x (ug_mole w'), grid_y (ug_mole w')))"
    if a: "grid_ok (grid (terrain w)) \<and> underground_update dt ks w = Inr w'" for dt ks w w'
  proof -
    from a obtain w2 tgt r' where s: "underground_input dt ks w = Inr w2"
      "ensure_generated tgt (terrain w2) (rng w2) = Inr (terrain w', r')"
      "ug_mole w' = process_animation dt (ug_mole w2)"
      by (auto elim: underground_update_split)
    have st: "grid_step w w2" using s(1) by (rule underground_input_grid_step)
    have ok2: "grid_ok (grid (terrain w2))" using st a by (simp add: grid_step_ok)
    have ok: "grid_ok (grid (terrain w'))" using s(2) ok2 by (rule ensure_generated_grid_ok)
    have emptied: "d = 1 \<and> d' = 0 \<and> p = (grid_x (ug_mole w'), grid_y (ug_mole w'))"
      if c: "grid (terrain w) p = Some (k, d) \<and> k \<noteq> EMPTY \<and> grid (terrain w') p = Some (EMPTY, d')"
      for p k d d'
    proof -
      from ensure_generated_cells [of tgt "terrain w2" "rng w2"] s(2)
      have "\<forall>q. grid (terrain w') q = grid (terrain w2) q \<or> fresh_cell (grid (terrain w') q)"
        by auto
      then have "grid (terrain w') p = grid (terrain w2) p \<or> fresh_cell (grid (terrain w') p)"
        by (rule spec)
      moreover have "\<not> fresh_cell (grid (terrain w') p)"
        using c fresh_cell_ok [of EMPTY d'] by auto
      ultimately have "grid (terrain w2) p = Some (EMPTY, d')" using c by simp
      then have "d = 1 \<and> d' = 0 \<and> p = (grid_x (ug_mole w2), grid_y (ug_mole w2))"
        using grid_step_emptied [OF st, of p k d d'] a c by blast
      then show ?thesis using s(3) by (simp add: process_animation_mole)
    qed
    show ?thesis using ok emptied by blast
  qed
  have range: "0 \<le> d \<and> d \<le> max_durability k \<and> (k = EMPTY \<longleftrightarrow> d = 0)"
    if "grid_ok g \<and> g p = Some (k, d)" for g :: grid_map and p k d
  proof -
    have "cell_ok (k, d)" using that grid_okD by blast
    then show ?thesis by (simp add: cell_ok_def)
  qed
  show ?thesis using init frame range by blast
qed

theorem tile_cell_invariant_witness:
  "grid_ok (grid (terrain (mine_with [(10, 6) \<mapsto> (DIRT, 1)])))
   \<and> (\<exists>w'. underground_update 16 keys_down (mine_with [(10, 6) \<mapsto> (DIRT, 1)]) = Inr w'
          \<and> grid_ok (grid (terrain w'))
          \<and> grid (terrain w') (10, 6) = Some (EMPTY, 0)
          \<and> grid_x (ug_mole w') = 10 \<and> grid_y (ug_mole w') = 6)"
proof -
  let ?W = "mine_with [(10, 6) \<mapsto> (DIRT, 1)]"
  let ?m = "(GridMole_init 10 5)\<lparr>can_move_timer := - 16\<rparr>"
  have ok: "grid_ok (grid (terrain ?W))"
    by (simp add: mine_with_fields grid_ok_def cell_ok_def max_durability_def dict_get_def
        DURABILITY_def)
  have m: "(ug_mole ?W)\<lparr>can_move_timer := can_move_timer (ug_mole ?W) - 16\<rparr> = ?m"
    by (simp add: mine_with_def GridMole_init_def)
  have r: "read_direction keys_down ?m = (0, 1, ?m)"
    by (simp add: read_direction_def keys_down_def)
  let ?W1 = "?W\<lparr>ug_mole := ?m\<rparr>"
  have f: "grid_x (ug_mole ?W1) = 10" "grid_y (ug_mole ?W1) = 5"
    "grid (terrain ?W1) = [(10, 6) \<mapsto> (DIRT, 1)]"
    "highest_y_generated (terrain ?W1) = 40"
    by (simp_all add: mine_with_def GridMole_init_def)
  define w2 where "w2 = ?W1\<lparr>terrain := (terrain ?W1)\<lparr>grid :=
                      (grid (terrain ?W1))((grid_x (ug_mole ?W1) + 0, grid_y (ug_mole ?W1) + 1) \<mapsto> (EMPTY, 1 - 1))\<rparr>,
                  ug_mole := move_into (grid_x (ug_mole ?W1) + 0) (grid_y (ug_mole ?W1) + 1) 0 1 (ug_mole ?W1),
                  session := (session ?W1)\<lparr>inventory := credit_ore DIRT (inventory (session ?W1))\<rparr>,
                  particle_pool := fst (emit (real_of_int ((grid_x (ug_mole ?W1) + 0) * TILE_SIZE + 16))
                                             (real_of_int ((grid_y (ug_mole ?W1) + 1) * TILE_SIZE + 16))
                                             (TILE_COLORS DIRT) 8 (rng ?W1) (particle_pool ?W1)),
                  rng := snd (emit (real_of_int ((grid_x (ug_mole ?W1) + 0) * TILE_SIZE + 16))
                                             (real_of_int ((grid_y (ug_mole ?W1) + 1) * TILE_SIZE + 16))
                                             (TILE_COLORS DIRT) 8 (rng ?W1) (particle_pool ?W1))\<rparr>"
  have w2: "attempt_move 0 1 ?W1 = Inr w2"
    unfolding w2_def
    by (rule attempt_move_destroy) (simp_all add: mine_with_fields GridMole_init_def COLS_eq)
  have w2f: "grid (terrain w2) = [(10, 6) \<mapsto> (EMPTY, 0)]" "highest_y_generated (terrain w2) = 40"
    unfolding w2_def by (simp_all add: mine_with_def GridMole_init_def)
  have inp: "underground_input 16 keys_down ?W = Inr w2"
    unfolding underground_input_def m r using w2 by simp
  obtain t' r' where fl: "ensure_generated
              (\<lfloor>(camera_follow (grid_y (ug_mole w2)) (camera_y w2) + real_of_int HEIGHT)
                   / real_of_int TILE_SIZE\<rfloor> + 10) (terrain w2) (rng w2) = Inr (t', r')"
     "underground_follow 16 w2 =
          Inr (w2\<lparr>ug_mole := process_animation 16 (ug_mole w2),
                 camera_y := camera_follow (grid_y (ug_mole w2)) (camera_y w2),
                 terrain := t', rng := r'\<rparr>)"
    using underground_follow_result [of w2 16] by blast
  let ?w' = "w2\<lparr>ug_mole := process_animation 16 (ug_mole w2),
                 camera_y := camera_follow (grid_y (ug_mole w2)) (camera_y w2),
                 terrain := t', rng := r'\<rparr>"
  have upd: "underground_update 16 keys_down ?W = Inr ?w'"
    by (simp add: underground_update_def inp fl(2))
  have wf2: "terrain_wf (terrain w2)"
    by (auto simp: terrain_wf_def w2f split: if_splits)
  have "(10, 6) \<in> dom (grid (terrain w2))" by (simp add: w2f)
  then have "grid t' (10, 6) = grid (terrain w2) (10, 6)"
    using ensure_generated_wf [OF fl(1) wf2] by blast
  then have cell: "grid (terrain ?w') (10, 6) = Some (EMPTY, 0)" by (simp add: w2f)
  have before: "grid (terrain ?W) (10, 6) = Some (DIRT, 1) \<and> DIRT \<noteq> EMPTY
      \<and> grid (terrain ?w') (10, 6) = Some (EMPTY, 0)"
    using cell by (simp add: mine_with_fields)
  note t = tile_cell_invariant [THEN conjunct2, THEN conjunct1, rule_format, of ?W 16 keys_down ?w',
      OF conjI [OF ok upd]]
  have ok': "grid_ok (grid (terrain ?w'))" using t by blast
  have "(1::int) = 1 \<and> (0::int) = 0 \<and> (10, 6) = (grid_x (ug_mole ?w'), grid_y (ug_mole ?w'))"
    using t [THEN conjunct2, rule_format, OF before] .
  then have pos: "grid_x (ug_mole ?w') = 10 \<and> grid_y (ug_mole ?w') = 6" by simp
  show ?thesis using ok upd ok' cell pos by blast
qed

text \<open>
  The claim as the specification words it excludes every direct assignment. Generation
  makes the starting cell \<open>(10, 5)\<close> of the mole a Dirt cell of durability 1, and line 320
  then assigns \<^verbatim>\<open>[EMPTY, 0]\<close> to it without any mining.
\<close>

theorem spawn_cell_emptied_by_assignment_counterexample:
  "(case ensure_generated (ROWS + 5) Terrain_init (sconst 0) of
      Inl e \<Rightarrow> None | Inr (t, r) \<Rightarrow> grid t (COLS div 2, 5)) = Some (DIRT, 1)
   \<and> (case mine_init (sconst 0) of
      Inl e \<Rightarrow> None | Inr w \<Rightarrow> grid (terrain w) (COLS div 2, 5)) = Some (EMPTY, 0)"
proof -
  obtain t r1 where t: "ensure_generated (ROWS + 5) Terrain_init (sconst 0) = Inr (t, r1)"
    "mine_init (sconst 0) =
         Inr \<lparr>terrain = t\<lparr>grid := (grid t)((COLS div 2, 5) \<mapsto> (EMPTY, 0))\<rparr>,
              ug_mole = GridMole_init (COLS div 2) 5, session = GameSession_init,
              particle_pool = ParticlePool_init 256, camera_y = 0, rng = r1\<rparr>"
    using mine_init_result [of "sconst 0"] by blast
  have "grid t (COLS div 2, 5) = Some (DIRT, 1)"
  proof -
    obtain t0 r0 where t0: "generate_rows [0 .. ROWS + 5] Terrain_init (sconst 0) = Inr (t0, r0)"
      using generate_rows_cells [of "[0 .. ROWS + 5]" Terrain_init "sconst 0"] by blast
    then have "t = t0\<lparr>highest_y_generated := ROWS + 5\<rparr>"
      using t(1) by (simp add: ensure_generated_def Terrain_init_def ROWS_def HEIGHT_def TILE_SIZE_def)
    moreover have "grid t0 (COLS div 2, 5) = Some (DIRT, 1)"
      using t0 by (rule generate_rows_shaft)
         (simp_all add: Terrain_init_def ROWS_def HEIGHT_def TILE_SIZE_def COLS_eq)
    ultimately show ?thesis by simp
  qed
  then show ?thesis using t by simp
qed

section \<open>Rock is never mined\<close>

text \<open>
  Claim C5. For a cell whose kind is Rock, any number of repeated move attempts towards
  it leaves the terrain, and so the durability of the cell, the session and the particle
  pool as they were: there is no destruction, no credit and no particle, and the mole does
  not move. Over any run of frames that starts from a terrain whose cells all lie within
  the generated rows, a Rock cell keeps its kind and its durability. And in a frame where
  the mole attempts to move into a Rock cell (the timer has run out and a direction key
  is pressed), the frame returns, the position of the mole is unchanged and its state at
  the end of the frame is Idle.
\<close>

theorem rock_never_mined:
  "(\<forall>n dx dy w d.
       grid (terrain w) (grid_x (ug_mole w) + dx, grid_y (ug_mole w) + dy) = Some (ROCK, d) \<longrightarrow>
       (\<exists>w'. attempts n dx dy w = Inr w' \<and> terrain w' = terrain w \<and> session w' = session w
            \<and> particle_pool w' = particle_pool w
            \<and> grid_x (ug_mole w') = grid_x (ug_mole w) \<and> grid_y (ug_mole w') = grid_y (ug_mole w)))
   \<and> (\<forall>frames w w' p d.
       terrain_wf (terrain w) \<and> grid (terrain w) p = Some (ROCK, d) \<and> run_frames frames w = Inr w' \<longrightarrow>
       grid (terrain w') p = Some (ROCK, d))
   \<and> (\<forall>dt ks w dx dy m d.
       read_direction ks ((ug_mole w)\<lparr>can_move_timer := can_move_timer (ug_mole w) - dt\<rparr>) = (dx, dy, m)
       \<and> (dx \<noteq> 0 \<or> dy \<noteq> 0)
       \<and> grid (terrain w) (grid_x (ug_mole w) + dx, grid_y (ug_mole w) + dy) = Some (ROCK, d) \<longrightarrow>
       (\<exists>w'. underground_update dt ks w = Inr w'
            \<and> grid_x (ug_mole w') = grid_x (ug_mole w) \<and> grid_y (ug_mole w') = grid_y (ug_mole w)
            \<and> state (ug_mole w') = IDLE \<and> session w' = session w
            \<and> particle_pool w' = particle_pool w))"
proof -
  have a: "\<exists>w'. attempts n dx dy w = Inr w' \<and> terrain w' = terrain w \<and> session w' = session w
            \<and> particle_pool w' = particle_pool w
            \<and> grid_x (ug_mole w') = grid_x (ug_mole w) \<and> grid_y (ug_mole w') = grid_y (ug_mole w)"
    if "grid (terrain w) (grid_x (ug_mole w) + dx, grid_y (ug_mole w) + dy) = Some (ROCK, d)"
    for n dx dy w d
    using that by (rule attempts_rock)
  have b: "grid (terrain w') p = Some (ROCK, d)"
    if "terrain_wf (terrain w) \<and> grid (terrain w) p = Some (ROCK, d) \<and> run_frames frames w = Inr w'"
    for frames w w' p d
    using that run_frames_rock [of frames w w' p d] by simp
  have c: "\<exists>w'. underground_update dt ks w = Inr w'
            \<and> grid_x (ug_mole w') = grid_x (ug_mole w) \<and> grid_y (ug_mole w') = grid_y (ug_mole w)
            \<and> state (ug_mole w') = IDLE \<and> session w' = session w
            \<and> particle_pool w' = particle_pool w"
    if "read_direction ks ((ug_mole w)\<lparr>can_move_timer := can_move_timer (ug_mole w) - dt\<rparr>) = (dx, dy, m)
       \<and> (dx \<noteq> 0 \<or> dy \<noteq> 0)
       \<and> grid (terrain w) (grid_x (ug_mole w) + dx, grid_y (ug_mole w) + dy) = Some (ROCK, d)"
    for dt ks w dx dy m d
    using that frame_into_rock [of ks w dt dx dy m d] by simp
  show ?thesis using a b c by blast
qed

theorem rock_never_mined_witness:
  "grid (terrain (mine_with [(10, 6) \<mapsto> (ROCK, 9999)])) (10, 6) = Some (ROCK, 9999)
   \<and> (\<exists>w'. attempts 5 0 1 (mine_with [(10, 6) \<mapsto> (ROCK, 9999)]) = Inr w'
          \<and> terrain w' = terrain (mine_with [(10, 6) \<mapsto> (ROCK, 9999)])
          \<and> session w' = session (mine_with [(10, 6) \<mapsto> (ROCK, 9999)]))
   \<and> (\<exists>w'. underground_update 16 keys_down (mine_with [(10, 6) \<mapsto> (ROCK, 9999)]) = Inr w'
          \<and> grid_x (ug_mole w') = 10 \<and> grid_y (ug_mole w') = 5
          \<and> state (ug_mole w') = IDLE
          \<and> grid (terrain w') (10, 6) = Some (ROCK, 9999))"
proof -
  let ?W = "mine_with [(10, 6) \<mapsto> (ROCK, 9999)]"
  let ?m = "(GridMole_init 10 5)\<lparr>can_move_timer := - 16\<rparr>"
  have cell: "grid (terrain ?W) (10, 6) = Some (ROCK, 9999)"
    by (simp add: mine_with_fields)
  have target: "grid (terrain ?W) (grid_x (ug_mole ?W) + 0, grid_y (ug_mole ?W) + 1) = Some (ROCK, 9999)"
    by (simp add: mine_with_fields)
  have m: "(ug_mole ?W)\<lparr>can_move_timer := can_move_timer (ug_mole ?W) - 16\<rparr> = ?m"
    by (simp add: mine_with_def GridMole_init_def)
  have r: "read_direction keys_down ((ug_mole ?W)\<lparr>can_move_timer := can_move_timer (ug_mole ?W) - 16\<rparr>)
            = (0, 1, ?m)"
    unfolding m by (simp add: read_direction_def keys_down_def)
  have wf: "terrain_wf (terrain ?W)"
    by (auto simp: terrain_wf_def mine_with_fields split: if_splits)
  note t = rock_never_mined
  from t [THEN conjunct1, rule_format, OF target, of 5]
  have a: "\<exists>w'. attempts 5 0 1 ?W = Inr w' \<and> terrain w' = terrain ?W \<and> session w' = session ?W"
    by blast
  from t [THEN conjunct2, THEN conjunct2, rule_format, OF conjI [OF r conjI [OF _ target]]]
  obtain w' where w': "underground_update 16 keys_down ?W = Inr w'"
    "grid_x (ug_mole w') = grid_x (ug_mole ?W)" "grid_y (ug_mole w') = grid_y (ug_mole ?W)"
    "state (ug_mole w') = IDLE"
    by auto
  have run: "run_frames [(16, keys_down)] ?W = Inr w'" using w'(1) by simp
  from t [THEN conjunct2, THEN conjunct1, rule_format, OF conjI [OF wf conjI [OF cell run]]]
  have kept: "grid (terrain w') (10, 6) = Some (ROCK, 9999)" .
  have "\<exists>w'. underground_update 16 keys_down ?W = Inr w'
          \<and> grid_x (ug_mole w') = 10 \<and> grid_y (ug_mole w') = 5
          \<and> state (ug_mole w') = IDLE
          \<and> grid (terrain w') (10, 6) = Some (ROCK, 9999)"
    using w' kept by (auto simp: mine_with_fields)
  then show ?thesis using cell a by blast
qed

section \<open>The camera follower\<close>

text \<open>
  Claim C8, over the reals. Each frame sets \<open>camera := camera + (target - camera) * 0.1\<close>
  with \<open>target = max 0 (mole_y * TILE_SIZE - HEIGHT div 3)\<close>. While the depth of the mole,
  and so the target, stays the same, the distance to the target is multiplied by
  \<open>9 / 10\<close> in every frame: a camera at or below the target rises monotonically and never
  passes it, a camera at or above the target falls monotonically and never passes it, and
  the sequence of offsets converges to the target.
\<close>

theorem camera_follows_without_overshoot:
  "camera_target gy = max 0 (real_of_int (gy * TILE_SIZE - HEIGHT div 3))
   \<and> camera_follow gy cam = cam + (camera_target gy - cam) * (1 / 10)
   \<and> (cam \<le> camera_target gy \<longrightarrow>
        (\<forall>n. (camera_follow gy ^^ n) cam \<le> (camera_follow gy ^^ Suc n) cam
             \<and> (camera_follow gy ^^ Suc n) cam \<le> camera_target gy))
   \<and> (camera_target gy \<le> cam \<longrightarrow>
        (\<forall>n. camera_target gy \<le> (camera_follow gy ^^ Suc n) cam
             \<and> (camera_follow gy ^^ Suc n) cam \<le> (camera_follow gy ^^ n) cam))
   \<and> (\<forall>n. camera_target gy - (camera_follow gy ^^ n) cam = (9 / 10) ^ n * (camera_target gy - cam))
   \<and> (\<lambda>n. (camera_follow gy ^^ n) cam) \<longlonglongrightarrow> camera_target gy"
proof -
  let ?T = "camera_target gy"
  let ?c = "\<lambda>n. (camera_follow gy ^^ n) cam"
  have up: "?c n \<le> ?c (Suc n) \<and> ?c (Suc n) \<le> ?T" if "cam \<le> ?T" for n
  proof -
    have "0 \<le> (9 / 10) ^ n * (?T - cam)" using that by simp
    then have e: "0 \<le> ?T - ?c n" using camera_error_closed [of gy n cam] by simp
    have "?T - ?c (Suc n) = (9 / 10) * (?T - ?c n)" by (simp add: camera_error_step)
    then show ?thesis using e by simp
  qed
  have down: "?T \<le> ?c (Suc n) \<and> ?c (Suc n) \<le> ?c n" if "?T \<le> cam" for n
  proof -
    have "(9 / 10) ^ n * (?T - cam) \<le> 0" using that by (simp add: mult_nonneg_nonpos)
    then have e: "?T - ?c n \<le> 0" using camera_error_closed [of gy n cam] by simp
    have "?T - ?c (Suc n) = (9 / 10) * (?T - ?c n)" by (simp add: camera_error_step)
    then show ?thesis using e by simp
  qed
  have d1: "camera_target gy = max 0 (real_of_int (gy * TILE_SIZE - HEIGHT div 3))"
    by (simp add: camera_target_def)
  have d2: "camera_follow gy cam = cam + (camera_target gy - cam) * (1 / 10)"
    by (simp add: camera_follow_def)
  have closed: "\<forall>n. ?T - ?c n = (9 / 10) ^ n * (?T - cam)"
    using camera_error_closed [of gy _ cam] by blast
  show ?thesis
    using d1 d2 up down closed camera_limit [of gy cam] by blast
qed

theorem camera_follows_without_overshoot_witness:
  "camera_target 10 = 160 \<and> (0::real) \<le> camera_target 10
   \<and> camera_follow 10 0 = 16 \<and> (camera_follow 10 ^^ 2) 0 = 152 / 5
   \<and> (camera_follow 10 ^^ 0) 0 \<le> (camera_follow 10 ^^ Suc 0) 0
   \<and> (camera_follow 10 ^^ Suc 0) 0 \<le> camera_target 10
   \<and> camera_target 0 = 0 \<and> camera_target 0 \<le> (100::real)
   \<and> camera_follow 0 100 = 90
   \<and> camera_target 0 \<le> (camera_follow 0 ^^ Suc 0) 100
   \<and> (camera_follow 0 ^^ Suc 0) 100 \<le> (camera_follow 0 ^^ 0) 100"
proof -
  have t10: "camera_target 10 = 160" and t0: "camera_target 0 = 0"
    by (simp_all add: camera_target_def TILE_SIZE_def HEIGHT_def)
  have h1: "(0::real) \<le> camera_target 10" and h2: "camera_target 0 \<le> (100::real)"
    by (simp_all add: t10 t0)
  have v: "camera_follow 10 0 = 16" "(camera_follow 10 ^^ 2) 0 = 152 / 5" "camera_follow 0 100 = 90"
    by (simp_all add: camera_follow_def t10 t0 numeral_2_eq_2)
  note a = camera_follows_without_overshoot [of 10 0, THEN conjunct2, THEN conjunct2,
      THEN conjunct1, rule_format, OF h1, of 0]
  note b = camera_follows_without_overshoot [of 0 100, THEN conjunct2, THEN conjunct2,
      THEN conjunct2, THEN conjunct1, rule_format, OF h2, of 0]
  show ?thesis using a b t10 t0 h1 h2 v by simp
qed

section \<open>Emitting with a count of zero\<close>

text \<open>
  Claim C7 at a concrete call. \<^verbatim>\<open>emit\<close> tests \<^verbatim>\<open>emitted >= count\<close> only after it has
  claimed a slot, so a call with \<^verbatim>\<open>count=0\<close> on the new pool of 256 free slots activates one
  particle, where \<open>min 0 256\<close> is 0. For every count from 1 on, \<open>emit_claims_min\<close> above
  gives what the claim says: exactly \<open>min N F\<close> slots are claimed, each with the given
  position and colour, life 255 and a velocity within the stated ranges, the other slots
  are untouched and the pool keeps its length.
\<close>

theorem emit_count_zero_claims_a_slot:
  "free_count (ParticlePool_init 256) = 256
   \<and> active_count (ParticlePool_init 256) = 0
   \<and> active_count (fst (emit 336 208 (139, 69, 19) 0 (sconst 0) (ParticlePool_init 256))) = 1"
proof -
  have f: "free_count (ParticlePool_init 256) = 256" "active_count (ParticlePool_init 256) = 0"
    by (simp_all add: ParticlePool_init_def active_count_def free_count_def Particle_init_def)
  show ?thesis by (simp add: emit_def emit_loop_active_count f)
qed

end
